theory Spec2Isabelle
  imports Main "HOL-Library.Word"
begin

section \<open>The "Would You Rather" backend: data model\<close>

text \<open>
  The service of \<^verbatim>\<open>main.py\<close> is a set of request handlers over one document collection,
  \<^verbatim>\<open>db["prompt"]\<close>. The handlers are modelled as functions that take the database handle and
  return the outcome of the request together with the database after it. What the handlers ask
  of the document store (count, insert, sample, find-and-update, sorted find) is modelled on a
  collection that is the list of its documents in insertion order.

  A Python \<^verbatim>\<open>str\<close> is a \<^typ>\<open>string\<close>, one \<^typ>\<open>char\<close> per code point; every literal of
  the source is ASCII.
\<close>

type_synonym byte = "8 word"

text \<open>An \<^verbatim>\<open>ObjectId\<close> is the byte string it wraps.\<close>

type_synonym oid = "byte list"

text \<open>
  A document is a dictionary; \<^verbatim>\<open>doc.get(key)\<close> tells a key that is absent from a key that is
  stored with the value null only through the default it is given. Each key of a prompt document
  is therefore absent, null or a value of the type the service writes under it. The identifier
  \<^verbatim>\<open>_id\<close> is the field \<open>oid\<close>: every stored document has one, and a document that is not
  inserted yet carries the empty one until \<open>insert_one\<close> sets it.
\<close>

datatype 'a field = Missing | Null | Val 'a

record doc =
  oid :: oid
  option_a :: "string field"
  option_b :: "string field"
  category :: "string field"
  created_by :: "string field"
  a_count :: "int field"
  b_count :: "int field"

record PromptCreate =
  option_a :: string
  option_b :: string
  category :: string
  created_by :: "string option"

record PromptResponse =
  id_str :: string
  option_a :: string
  option_b :: string
  category :: string
  created_by :: "string option"
  a_count :: int
  b_count :: int

record VoteRequest =
  prompt_id :: string
  option :: string

text \<open>
  The exceptions a handler can leave with. \<open>HTTPException\<close> carries the status code and the
  detail; the others are raised by the libraries and are not caught by any handler.
\<close>

datatype error =
    HTTPException nat string
  | DuplicateKeyError
  | OperationFailure
  | ValidationError
  | TypeError

text \<open>The status of the response: an exception that is not an \<open>HTTPException\<close> is answered with 500.\<close>

fun status_code :: "error \<Rightarrow> nat" where
  "status_code (HTTPException c _) = c"
| "status_code _ = 500"

text \<open>The collection \<^verbatim>\<open>db["prompt"]\<close>, and \<^verbatim>\<open>db\<close>, which is \<^verbatim>\<open>None\<close> when no database is configured.\<close>

type_synonym collection = "doc list"
type_synonym database = "collection option"

text \<open>The field constraints of \<^verbatim>\<open>PromptCreate\<close>: both options have 3 to 140 characters.\<close>

definition PromptCreate_valid :: "PromptCreate \<Rightarrow> bool" where
  "PromptCreate_valid body \<longleftrightarrow>
     3 \<le> length (PromptCreate.option_a body) \<and> length (PromptCreate.option_a body) \<le> 140 \<and>
     3 \<le> length (PromptCreate.option_b body) \<and> length (PromptCreate.option_b body) \<le> 140"

section \<open>Object identifiers\<close>

text \<open>
  \<^verbatim>\<open>ObjectId(s)\<close> on a string: a string of 24 characters is handed to \<^verbatim>\<open>bytes.fromhex\<close>, any
  other length is refused. \<^verbatim>\<open>bytes.fromhex\<close> reads pairs of hexadecimal digits and skips
  ASCII whitespace in front of a pair.
\<close>

definition isspace :: "char \<Rightarrow> bool" where
  "isspace c \<longleftrightarrow> (of_char c :: nat) \<in> {32, 9, 10, 11, 12, 13}"

definition digit_value :: "char \<Rightarrow> nat option" where
  "digit_value c =
     (let n = (of_char c :: nat) in
      if 48 \<le> n \<and> n \<le> 57 then Some (n - 48)
      else if 97 \<le> n \<and> n \<le> 102 then Some (n - 87)
      else if 65 \<le> n \<and> n \<le> 70 then Some (n - 55)
      else None)"

fun fromhex :: "string \<Rightarrow> byte list option" where
  "fromhex [] = Some []"
| "fromhex (c # cs) =
     (if isspace c then fromhex cs
      else case cs of
        [] \<Rightarrow> None
      | c' # cs' \<Rightarrow>
          (case (digit_value c, digit_value c') of
             (Some t, Some b) \<Rightarrow> map_option (\<lambda>bs. of_nat (16 * t + b) # bs) (fromhex cs')
           | _ \<Rightarrow> None))"

definition ObjectId :: "string \<Rightarrow> oid option" where
  "ObjectId s = (if length s = 24 then fromhex s else None)"

text \<open>
  The text of a store identifier, in the words of the specification, is 24 hexadecimal digits.
  A string is malformed when it has another length or a character that is neither a hexadecimal
  digit nor ASCII whitespace.
\<close>

definition valid_identifier :: "string \<Rightarrow> bool" where
  "valid_identifier s \<longleftrightarrow> length s = 24 \<and> list_all (\<lambda>c. digit_value c \<noteq> None) s"

definition malformed_identifier :: "string \<Rightarrow> bool" where
  "malformed_identifier s \<longleftrightarrow>
     length s \<noteq> 24 \<or> list_ex (\<lambda>c. digit_value c = None \<and> \<not> isspace c) s"

text \<open>\<^verbatim>\<open>str(oid)\<close>: two lower-case hexadecimal digits for each byte.\<close>

definition hexdigit :: "nat \<Rightarrow> char" where
  "hexdigit n = ''0123456789abcdef'' ! n"

fun str_oid :: "oid \<Rightarrow> string" where
  "str_oid [] = []"
| "str_oid (b # bs) = hexdigit (unat b div 16) # hexdigit (unat b mod 16) # str_oid bs"

section \<open>The document store\<close>

text \<open>\<^verbatim>\<open>count_documents({})\<close>.\<close>

definition count_documents :: "collection \<Rightarrow> int" where
  "count_documents c = int (length c)"

text \<open>
  \<^verbatim>\<open>insert_one(document)\<close>: the driver gives the document the identifier it has just generated
  (here the argument \<open>new_id\<close>), and the store, whose identifiers are unique, refuses an
  identifier it already holds. The result is \<^verbatim>\<open>inserted_id\<close>.
\<close>

definition insert_one :: "collection \<Rightarrow> oid \<Rightarrow> doc \<Rightarrow> (error + oid) \<times> collection" where
  "insert_one c new_id d =
     (if new_id \<in> set (map doc.oid c) then (Inl DuplicateKeyError, c)
      else (Inr new_id, c @ [d\<lparr>doc.oid := new_id\<rparr>]))"

text \<open>
  \<^verbatim>\<open>aggregate([{"$sample": {"size": 1}}])\<close>: no document of an empty collection, one document
  of any other; \<open>pick\<close> is the random choice.
\<close>

definition sample :: "collection \<Rightarrow> nat \<Rightarrow> doc list" where
  "sample c pick = (if c = [] then [] else [c ! (pick mod length c)])"

text \<open>
  \<^verbatim>\<open>{"$inc": {field: 1}}\<close> on one count: an absent count becomes 1, a null one is refused, and so
  is an increment that leaves the 64-bit integers.
\<close>

definition inc :: "int field \<Rightarrow> error + int field" where
  "inc v =
     (case v of
        Missing \<Rightarrow> Inr (Val 1)
      | Null \<Rightarrow> Inl OperationFailure
      | Val n \<Rightarrow> (if n + 1 < 2 ^ 63 then Inr (Val (n + 1)) else Inl OperationFailure))"

text \<open>The document after \<^verbatim>\<open>{"$inc": {field: 1}}\<close>, for the two fields the handler names.\<close>

definition inc_field :: "string \<Rightarrow> doc \<Rightarrow> error + doc" where
  "inc_field fld d =
     (if fld = ''a_count'' then
        (case inc (doc.a_count d) of Inl e \<Rightarrow> Inl e | Inr v \<Rightarrow> Inr (d\<lparr>doc.a_count := v\<rparr>))
      else
        (case inc (doc.b_count d) of Inl e \<Rightarrow> Inl e | Inr v \<Rightarrow> Inr (d\<lparr>doc.b_count := v\<rparr>)))"

text \<open>
  \<^verbatim>\<open>find_one_and_update({"_id": oid}, {"$inc": {field: 1}}, return_document=True)\<close>: the first
  document with the identifier is replaced by its update, which is returned; \<^verbatim>\<open>None\<close> when
  there is none.
\<close>

fun find_one_and_update :: "collection \<Rightarrow> oid \<Rightarrow> string \<Rightarrow> (error + doc option) \<times> collection" where
  "find_one_and_update [] i fld = (Inr None, [])"
| "find_one_and_update (d # ds) i fld =
     (if doc.oid d = i then
        (case inc_field fld d of
           Inl e \<Rightarrow> (Inl e, d # ds)
         | Inr d' \<Rightarrow> (Inr (Some d'), d' # ds))
      else
        (case find_one_and_update ds i fld of (r, ds') \<Rightarrow> (r, d # ds')))"

text \<open>
  \<^verbatim>\<open>sort([("a_count", -1), ("b_count", -1)])\<close>: the store compares an absent or null count as
  null, which is below every number. \<open>bson_key\<close> is the key of a count, \<open>key_less\<close> the
  order of the keys and \<open>doc_ge\<close> the order "not after" of a descending sort on both.
  Documents that are equal on both keys stay in the order of insertion.
\<close>

definition bson_key :: "int field \<Rightarrow> int option" where
  "bson_key v = (case v of Val n \<Rightarrow> Some n | _ \<Rightarrow> None)"

fun key_less :: "int option \<Rightarrow> int option \<Rightarrow> bool" where
  "key_less None None = False"
| "key_less None (Some _) = True"
| "key_less (Some _) None = False"
| "key_less (Some m) (Some n) = (m < n)"

definition doc_ge :: "doc \<Rightarrow> doc \<Rightarrow> bool" where
  "doc_ge x y \<longleftrightarrow>
     key_less (bson_key (doc.a_count y)) (bson_key (doc.a_count x)) \<or>
     (bson_key (doc.a_count x) = bson_key (doc.a_count y) \<and>
      \<not> key_less (bson_key (doc.b_count x)) (bson_key (doc.b_count y)))"

fun insort_desc :: "doc \<Rightarrow> doc list \<Rightarrow> doc list" where
  "insort_desc x [] = [x]"
| "insort_desc x (y # ys) = (if doc_ge x y then x # y # ys else y # insort_desc x ys)"

fun sort_desc :: "doc list \<Rightarrow> doc list" where
  "sort_desc [] = []"
| "sort_desc (x # xs) = insort_desc x (sort_desc xs)"

text \<open>
  \<^verbatim>\<open>limit(n)\<close> on a cursor: a limit of 0 is no limit, and the driver sends the absolute value
  of any other. The limit is one the driver can send, a 64-bit integer.
\<close>

definition limit_cursor :: "int \<Rightarrow> doc list \<Rightarrow> doc list" where
  "limit_cursor n ds = (if n = 0 then ds else take (nat \<bar>n\<bar>) ds)"

section \<open>Serialization and seeding\<close>

text \<open>\<^verbatim>\<open>doc.get(key)\<close> and \<^verbatim>\<open>doc.get(key, default)\<close>; \<open>None\<close> is Python's \<^verbatim>\<open>None\<close>.\<close>

definition get :: "'a field \<Rightarrow> 'a option" where
  "get v = (case v of Val x \<Rightarrow> Some x | _ \<Rightarrow> None)"

definition get_default :: "'a field \<Rightarrow> 'a \<Rightarrow> 'a option" where
  "get_default v dflt = (case v of Missing \<Rightarrow> Some dflt | Null \<Rightarrow> None | Val x \<Rightarrow> Some x)"

text \<open>\<^verbatim>\<open>int(x)\<close> on an integer or \<^verbatim>\<open>None\<close>.\<close>

definition py_int :: "int option \<Rightarrow> error + int" where
  "py_int v = (case v of None \<Rightarrow> Inl TypeError | Some n \<Rightarrow> Inr n)"

text \<open>
  \<^verbatim>\<open>_serialize\<close>: the arguments are evaluated first, so a null count raises from \<^verbatim>\<open>int\<close>;
  then \<^verbatim>\<open>PromptResponse\<close> refuses \<^verbatim>\<open>None\<close> for the fields declared \<^verbatim>\<open>str\<close>.
\<close>

definition serialize :: "doc \<Rightarrow> error + PromptResponse" where
  "serialize d =
     (case py_int (get_default (doc.a_count d) 0) of
        Inl e \<Rightarrow> Inl e
      | Inr a \<Rightarrow>
     (case py_int (get_default (doc.b_count d) 0) of
        Inl e \<Rightarrow> Inl e
      | Inr b \<Rightarrow>
     (case (get (doc.option_a d), get (doc.option_b d), get_default (doc.category d) ''general'') of
        (Some oa, Some ob, Some cat) \<Rightarrow>
          Inr \<lparr>id_str = str_oid (doc.oid d), option_a = oa, option_b = ob, category = cat,
               created_by = get (doc.created_by d), a_count = a, b_count = b\<rparr>
      | _ \<Rightarrow> Inl ValidationError)))"

definition STARTER_PROMPTS :: "(string \<times> string) list" where
  "STARTER_PROMPTS =
     [(''be able to fly for a day'', ''turn invisible for a day''),
      (''eat pancakes for dinner'', ''eat pizza for breakfast''),
      (''have a pet dinosaur'', ''have a pet dragon''),
      (''swim with dolphins'', ''camp under the stars''),
      (''build a giant pillow fort'', ''have a massive water balloon fight''),
      (''never do homework again'', ''never do chores again'')]"

text \<open>The document the seeding loop inserts for a pair; its identifier is given by the insert.\<close>

definition seed_doc :: "string \<Rightarrow> string \<Rightarrow> doc" where
  "seed_doc a b =
     \<lparr>oid = [], option_a = Val a, option_b = Val b, category = Val ''general'',
      created_by = Val ''seed'', a_count = Val 0, b_count = Val 0\<rparr>"

text \<open>
  The loop of \<^verbatim>\<open>_ensure_seeded\<close>. \<open>gen k\<close> is the identifier the driver generates for the
  \<open>k\<close>-th insert of the request. An insert that raises ends the loop and keeps what was inserted
  before it.
\<close>

fun seed_loop :: "(nat \<Rightarrow> oid) \<Rightarrow> nat \<Rightarrow> (string \<times> string) list \<Rightarrow> collection \<Rightarrow> (error + unit) \<times> collection" where
  "seed_loop gen k [] c = (Inr (), c)"
| "seed_loop gen k ((a, b) # ps) c =
     (case insert_one c (gen k) (seed_doc a b) of
        (Inl e, c') \<Rightarrow> (Inl e, c')
      | (Inr _, c') \<Rightarrow> seed_loop gen (Suc k) ps c')"

definition ensure_seeded :: "database \<Rightarrow> (nat \<Rightarrow> oid) \<Rightarrow> (error + unit) \<times> database" where
  "ensure_seeded db gen =
     (case db of
        None \<Rightarrow> (Inl (HTTPException 500 ''Database not configured''), None)
      | Some c \<Rightarrow>
          (if count_documents c = 0 then
             (case seed_loop gen 0 STARTER_PROMPTS c of (r, c') \<Rightarrow> (r, Some c'))
           else (Inr (), Some c)))"

section \<open>Request handlers\<close>

definition get_random_prompt :: "database \<Rightarrow> (nat \<Rightarrow> oid) \<Rightarrow> nat \<Rightarrow> (error + PromptResponse) \<times> database" where
  "get_random_prompt db gen pick =
     (case ensure_seeded db gen of
        (Inl e, db') \<Rightarrow> (Inl e, db')
      | (Inr _, db') \<Rightarrow>
          (case db' of
             None \<Rightarrow> (Inl TypeError, db')
           | Some c \<Rightarrow>
               (case sample c pick of
                  [] \<Rightarrow> (Inl (HTTPException 404 ''No prompts available''), db')
                | d # _ \<Rightarrow> (serialize d, db'))))"

text \<open>\<^verbatim>\<open>body.model_dump()\<close> updated with the two counts.\<close>

definition model_dump :: "PromptCreate \<Rightarrow> doc" where
  "model_dump body =
     \<lparr>oid = [], option_a = Val (PromptCreate.option_a body),
      option_b = Val (PromptCreate.option_b body),
      category = Val (PromptCreate.category body),
      created_by = (case PromptCreate.created_by body of None \<Rightarrow> Null | Some s \<Rightarrow> Val s),
      a_count = Missing, b_count = Missing\<rparr>"

definition create_prompt :: "database \<Rightarrow> oid \<Rightarrow> PromptCreate \<Rightarrow> (error + PromptResponse) \<times> database" where
  "create_prompt db new_id body =
     (case db of
        None \<Rightarrow> (Inl (HTTPException 500 ''Database not configured''), None)
      | Some c \<Rightarrow>
          (let d = (model_dump body)\<lparr>doc.a_count := Val 0, doc.b_count := Val 0\<rparr> in
           case insert_one c new_id d of
             (Inl e, c') \<Rightarrow> (Inl e, Some c')
           | (Inr inserted_id, c') \<Rightarrow> (serialize (d\<lparr>doc.oid := inserted_id\<rparr>), Some c')))"

definition vote :: "database \<Rightarrow> VoteRequest \<Rightarrow> (error + PromptResponse) \<times> database" where
  "vote db body =
     (case db of
        None \<Rightarrow> (Inl (HTTPException 500 ''Database not configured''), None)
      | Some c \<Rightarrow>
          (case ObjectId (prompt_id body) of
             None \<Rightarrow> (Inl (HTTPException 400 ''Invalid prompt_id''), Some c)
           | Some i \<Rightarrow>
               (let fld = (if option body = ''a'' then ''a_count'' else ''b_count'') in
                case find_one_and_update c i fld of
                  (Inl e, c') \<Rightarrow> (Inl e, Some c')
                | (Inr None, c') \<Rightarrow> (Inl (HTTPException 404 ''Prompt not found''), Some c')
                | (Inr (Some updated), c') \<Rightarrow> (serialize updated, Some c'))))"

text \<open>The list comprehension of \<^verbatim>\<open>top_prompts\<close>: the first document that fails to serialize raises.\<close>

fun serialize_all :: "doc list \<Rightarrow> error + PromptResponse list" where
  "serialize_all [] = Inr []"
| "serialize_all (d # ds) =
     (case serialize d of
        Inl e \<Rightarrow> Inl e
      | Inr r \<Rightarrow> (case serialize_all ds of Inl e \<Rightarrow> Inl e | Inr rs \<Rightarrow> Inr (r # rs)))"

definition top_prompts :: "database \<Rightarrow> int \<Rightarrow> (error + PromptResponse list) \<times> database" where
  "top_prompts db limit =
     (case db of
        None \<Rightarrow> (Inl (HTTPException 500 ''Database not configured''), None)
      | Some c \<Rightarrow> (serialize_all (limit_cursor limit (sort_desc c)), Some c))"

text \<open>The handler as the route calls it when the query has no \<^verbatim>\<open>limit\<close>.\<close>

definition top_prompts_default :: "database \<Rightarrow> (error + PromptResponse list) \<times> database" where
  "top_prompts_default db = top_prompts db 10"

section \<open>Requests in sequence\<close>

text \<open>
  The routes of the application, and the database after a request and after a sequence of
  requests. A request carries what the handler takes from outside: the identifiers the driver
  generates and the random choice of the store.
\<close>

datatype request =
    GetRandomPrompt "nat \<Rightarrow> oid" nat
  | CreatePrompt oid PromptCreate
  | Vote VoteRequest
  | TopPrompts int

fun handle :: "database \<Rightarrow> request \<Rightarrow> database" where
  "handle db (GetRandomPrompt gen pick) = snd (get_random_prompt db gen pick)"
| "handle db (CreatePrompt new_id body) = snd (create_prompt db new_id body)"
| "handle db (Vote body) = snd (vote db body)"
| "handle db (TopPrompts limit) = snd (top_prompts db limit)"

fun serve :: "database \<Rightarrow> request list \<Rightarrow> database" where
  "serve db [] = db"
| "serve db (q # qs) = serve (handle db q) qs"

text \<open>
  Two documents agree on the identifier and on the four text fields; a collection holds a
  document \<open>e\<close> when the identifier of \<open>e\<close> is stored and every document stored under it agrees
  with \<open>e\<close> on them.
\<close>

definition same_text :: "doc \<Rightarrow> doc \<Rightarrow> bool" where
  "same_text d e \<longleftrightarrow>
     doc.oid d = doc.oid e \<and> doc.option_a d = doc.option_a e \<and> doc.option_b d = doc.option_b e \<and>
     doc.category d = doc.category e \<and> doc.created_by d = doc.created_by e"

definition holds :: "doc \<Rightarrow> collection \<Rightarrow> bool" where
  "holds e c \<longleftrightarrow> doc.oid e \<in> set (map doc.oid c) \<and> (\<forall>d\<in>set c. doc.oid d = doc.oid e \<longrightarrow> same_text d e)"

text \<open>A document has both counts, as every document the service inserts has.\<close>

definition has_counts :: "doc \<Rightarrow> bool" where
  "has_counts d \<longleftrightarrow> doc.a_count d \<noteq> Missing \<and> doc.b_count d \<noteq> Missing"


section \<open>Example data\<close>

definition example_gen :: "nat \<Rightarrow> oid" where
  "example_gen k = [0, 0, 0, 0, 0, 0, 0, 0, 0, 0, 0, of_nat k]"

definition example_doc :: "nat \<Rightarrow> int \<Rightarrow> int \<Rightarrow> doc" where
  "example_doc k a b =
     \<lparr>oid = example_gen k, option_a = Val ''have a pet dinosaur'', option_b = Val ''have a pet dragon'',
      category = Val ''general'', created_by = Val ''seed'', a_count = Val a, b_count = Val b\<rparr>"

definition example_response :: "string \<Rightarrow> int \<Rightarrow> int \<Rightarrow> PromptResponse" where
  "example_response i a b =
     \<lparr>id_str = i, option_a = ''have a pet dinosaur'', option_b = ''have a pet dragon'',
      category = ''general'', created_by = Some ''seed'', a_count = a, b_count = b\<rparr>"

definition example_body :: PromptCreate where
  "example_body =
     \<lparr>PromptCreate.option_a = ''read a book'', PromptCreate.option_b = ''watch a film'',
      PromptCreate.category = ''evening'', PromptCreate.created_by = None\<rparr>"


definition example_store :: collection where
  "example_store = [example_doc 4 3 5, example_doc 2 4 1, example_doc 3 3 7]"

definition example_created :: doc where
  "example_created =
     \<lparr>oid = example_gen 5, option_a = Val ''read a book'', option_b = Val ''watch a film'',
      category = Val ''evening'', created_by = Null, a_count = Val 0, b_count = Val 0\<rparr>"

definition example_created_response :: "int \<Rightarrow> PromptResponse" where
  "example_created_response a =
     \<lparr>id_str = ''000000000000000000000005'', option_a = ''read a book'',
      option_b = ''watch a film'', category = ''evening'', created_by = None,
      a_count = a, b_count = 0\<rparr>"

section \<open>Properties\<close>

subsection \<open>The example data evaluated\<close>

lemma ObjectId_example_1: "ObjectId ''000000000000000000000001'' = Some (example_gen 1)"
  by (simp add: ObjectId_def example_gen_def isspace_def digit_value_def)

lemma ObjectId_example_2: "ObjectId ''000000000000000000000002'' = Some (example_gen 2)"
  by (simp add: ObjectId_def example_gen_def isspace_def digit_value_def)

lemma ObjectId_malformed: "ObjectId ''not-an-id'' = None"
  by (simp add: ObjectId_def)

lemma str_oid_example_1: "str_oid (example_gen 1) = ''000000000000000000000001''"
  by (simp add: example_gen_def hexdigit_def)

lemma str_oid_example_2: "str_oid (example_gen 2) = ''000000000000000000000002''"
  by (simp add: example_gen_def hexdigit_def)

lemma str_oid_example_3: "str_oid (example_gen 3) = ''000000000000000000000003''"
  by (simp add: example_gen_def hexdigit_def)

lemma serialize_example_doc:
  "serialize (example_doc k a b) = Inr (example_response (str_oid (example_gen k)) a b)"
  by (simp add: serialize_def example_doc_def example_response_def py_int_def get_def get_default_def)

lemma distinct_example_gen: "distinct (map example_gen [0..<6])"
proof -
  have "[0..<6] = [0, 1, 2, 3, 4, 5::nat]" by (simp add: upt_rec)
  then show ?thesis by (simp add: example_gen_def)
qed

lemma str_oid_example_4: "str_oid (example_gen 4) = ''000000000000000000000004''"
  by (simp add: example_gen_def hexdigit_def)

lemma str_oid_example_5: "str_oid (example_gen 5) = ''000000000000000000000005''"
  by (simp add: example_gen_def hexdigit_def)

lemma ObjectId_example_5: "ObjectId ''000000000000000000000005'' = Some (example_gen 5)"
  by (simp add: ObjectId_def example_gen_def isspace_def digit_value_def)

lemma oid_example_doc: "doc.oid (example_doc k a b) = example_gen k"
  by (simp add: example_doc_def)

lemma inc_b_example_doc:
  "b + 1 < 2 ^ 63 \<Longrightarrow> inc_field ''b_count'' (example_doc k a b) = Inr (example_doc k a (b + 1))"
  by (simp add: inc_field_def inc_def example_doc_def)

lemma sort_desc_example:
  "sort_desc example_store = [example_doc 2 4 1, example_doc 3 3 7, example_doc 4 3 5]"
  by (simp add: example_store_def example_doc_def doc_ge_def bson_key_def)

lemma serialize_all_example:
  "serialize_all [example_doc 2 4 1, example_doc 3 3 7, example_doc 4 3 5] =
     Inr [example_response ''000000000000000000000002'' 4 1,
          example_response ''000000000000000000000003'' 3 7,
          example_response ''000000000000000000000004'' 3 5]"
  by (simp only: serialize_all.simps serialize_example_doc str_oid_example_4 str_oid_example_2
      str_oid_example_3 sum.case)

lemma top_prompts_example_2:
  "fst (top_prompts (Some example_store) 2) =
     Inr [example_response ''000000000000000000000002'' 4 1,
          example_response ''000000000000000000000003'' 3 7]"
proof -
  have "limit_cursor 2 (sort_desc example_store) = [example_doc 2 4 1, example_doc 3 3 7]"
    by (simp add: sort_desc_example limit_cursor_def)
  then have "fst (top_prompts (Some example_store) 2) =
      serialize_all [example_doc 2 4 1, example_doc 3 3 7]"
    by (simp add: top_prompts_def)
  then show ?thesis
    by (simp only: serialize_all.simps serialize_example_doc str_oid_example_2
        str_oid_example_3 sum.case)
qed

lemma top_prompts_example_0:
  "fst (top_prompts (Some example_store) 0) =
     Inr [example_response ''000000000000000000000002'' 4 1,
          example_response ''000000000000000000000003'' 3 7,
          example_response ''000000000000000000000004'' 3 5]"
proof -
  have "fst (top_prompts (Some example_store) 0) =
      serialize_all [example_doc 2 4 1, example_doc 3 3 7, example_doc 4 3 5]"
    by (simp add: top_prompts_def limit_cursor_def sort_desc_example)
  then show ?thesis by (simp only: serialize_all_example)
qed

lemma has_counts_example: "\<forall>d\<in>set example_store. has_counts d"
  by (simp add: example_store_def example_doc_def has_counts_def)

lemma create_prompt_example:
  "create_prompt (Some example_store) (example_gen 5) example_body =
     (Inr (example_created_response 0), Some (example_store @ [example_created]))"
proof -
  have "example_gen 5 \<notin> set (map doc.oid example_store)"
    by (simp add: example_store_def oid_example_doc) (simp add: example_gen_def)
  moreover have "(model_dump example_body)\<lparr>doc.a_count := Val 0, doc.b_count := Val 0, doc.oid := example_gen 5\<rparr> = example_created"
    by (simp add: model_dump_def example_body_def example_created_def)
  moreover have "serialize example_created = Inr (example_created_response 0)"
    by (simp add: serialize_def example_created_def example_created_response_def str_oid_example_5
        py_int_def get_def get_default_def)
  ultimately show ?thesis
    by (simp add: create_prompt_def insert_one_def Let_def)
qed

lemma serve_example:
  "serve (Some (example_store @ [example_created]))
     [Vote \<lparr>prompt_id = ''000000000000000000000005'', option = ''a''\<rparr>] =
   Some (example_store @ [example_created\<lparr>doc.a_count := Val 1\<rparr>])"
proof -
  have g: "example_gen 4 \<noteq> example_gen 5" "example_gen 2 \<noteq> example_gen 5" "example_gen 3 \<noteq> example_gen 5"
    by (simp_all add: example_gen_def)
  have o: "doc.oid example_created = example_gen 5"
    by (simp add: example_created_def)
  have i: "inc_field ''a_count'' example_created = Inr (example_created\<lparr>doc.a_count := Val 1\<rparr>)"
    by (simp add: inc_field_def inc_def example_created_def)
  have "find_one_and_update (example_store @ [example_created]) (example_gen 5) ''a_count'' =
      (Inr (Some (example_created\<lparr>doc.a_count := Val 1\<rparr>)),
       example_store @ [example_created\<lparr>doc.a_count := Val 1\<rparr>])"
    by (simp add: example_store_def oid_example_doc g o i)
  then show ?thesis
    by (simp add: vote_def ObjectId_example_5 split: sum.splits)
qed

lemma top_prompts_example_created:
  "fst (top_prompts (Some (example_store @ [example_created\<lparr>doc.a_count := Val 1\<rparr>])) 10) =
     Inr [example_response ''000000000000000000000002'' 4 1,
          example_response ''000000000000000000000003'' 3 7,
          example_response ''000000000000000000000004'' 3 5,
          example_created_response 1]"
proof -
  have "sort_desc (example_store @ [example_created\<lparr>doc.a_count := Val 1\<rparr>]) =
      [example_doc 2 4 1, example_doc 3 3 7, example_doc 4 3 5, example_created\<lparr>doc.a_count := Val 1\<rparr>]"
    by (simp add: example_store_def example_doc_def example_created_def doc_ge_def bson_key_def)
  then have "fst (top_prompts (Some (example_store @ [example_created\<lparr>doc.a_count := Val 1\<rparr>])) 10) =
      serialize_all [example_doc 2 4 1, example_doc 3 3 7, example_doc 4 3 5, example_created\<lparr>doc.a_count := Val 1\<rparr>]"
    by (simp add: top_prompts_def limit_cursor_def)
  moreover have "serialize (example_created\<lparr>doc.a_count := Val 1\<rparr>) = Inr (example_created_response 1)"
    by (simp add: serialize_def example_created_def example_created_response_def str_oid_example_5
        py_int_def get_def get_default_def)
  ultimately show ?thesis
    by (simp only: serialize_all.simps serialize_example_doc str_oid_example_4 str_oid_example_2
        str_oid_example_3 sum.case)
qed

subsection \<open>Voting\<close>

lemma find_one_and_update_found:
  "find (\<lambda>d. doc.oid d = i) c = Some d \<Longrightarrow> inc_field fld d = Inr d' \<Longrightarrow>
   \<exists>k<length c. c ! k = d \<and> find_one_and_update c i fld = (Inr (Some d'), c[k := d'])"
proof (induction c)
  case Nil
  then show ?case by simp
next
  case (Cons x xs)
  show ?case
  proof (cases "doc.oid x = i")
    case True
    with Cons.prems have "x = d" by simp
    with True Cons.prems(2) have "(x # xs) ! 0 = d \<and> find_one_and_update (x # xs) i fld = (Inr (Some d'), (x # xs)[0 := d'])"
      by simp
    then show ?thesis by blast
  next
    case False
    with Cons.prems have "find (\<lambda>d. doc.oid d = i) xs = Some d" by simp
    from Cons.IH [OF this Cons.prems(2)] obtain k where
      k: "k < length xs" "xs ! k = d" "find_one_and_update xs i fld = (Inr (Some d'), xs[k := d'])"
      by blast
    with False have "Suc k < length (x # xs) \<and> (x # xs) ! Suc k = d \<and>
       find_one_and_update (x # xs) i fld = (Inr (Some d'), (x # xs)[Suc k := d'])"
      by simp
    then show ?thesis by blast
  qed
qed

lemma find_one_and_update_failed:
  "find (\<lambda>d. doc.oid d = i) c = Some d \<Longrightarrow> inc_field fld d = Inl e \<Longrightarrow>
   find_one_and_update c i fld = (Inl e, c)"
  by (induction c) (auto split: if_splits)

lemma find_one_and_update_absent:
  "find (\<lambda>d. doc.oid d = i) c = None \<Longrightarrow> find_one_and_update c i fld = (Inr None, c)"
  by (induction c) (auto split: if_splits)

lemma serialize_inc_a:
  assumes "serialize d = Inr r"
  shows "inc_field ''a_count'' d =
           (if PromptResponse.a_count r + 1 < 2 ^ 63
            then Inr (d\<lparr>doc.a_count := Val (PromptResponse.a_count r + 1)\<rparr>) else Inl OperationFailure)"
  using assms
  by (auto simp: serialize_def inc_field_def inc_def py_int_def get_default_def
           split: field.splits sum.splits option.splits if_splits)


lemma find_one_and_update_updated:
  "find_one_and_update c i fld = (Inr (Some d'), c') \<Longrightarrow>
   \<exists>k<length c. doc.oid (c ! k) = i \<and> (\<forall>j<k. doc.oid (c ! j) \<noteq> i) \<and>
      inc_field fld (c ! k) = Inr d' \<and> c' = c[k := d']"
proof (induction c arbitrary: c')
  case Nil
  then show ?case by simp
next
  case (Cons x xs)
  show ?case
  proof (cases "doc.oid x = i")
    case True
    with Cons.prems have "inc_field fld x = Inr d' \<and> c' = d' # xs"
      by (auto split: sum.splits)
    with True have "0 < length (x # xs) \<and> doc.oid ((x # xs) ! 0) = i \<and> (\<forall>j<0. doc.oid ((x # xs) ! j) \<noteq> i) \<and>
      inc_field fld ((x # xs) ! 0) = Inr d' \<and> c' = (x # xs)[0 := d']"
      by simp
    then show ?thesis by blast
  next
    case False
    with Cons.prems obtain xs' where xs': "find_one_and_update xs i fld = (Inr (Some d'), xs')" "c' = x # xs'"
      by (auto split: prod.splits)
    from Cons.IH [OF xs'(1)] obtain k where
      k: "k < length xs" "doc.oid (xs ! k) = i" "\<forall>j<k. doc.oid (xs ! j) \<noteq> i"
         "inc_field fld (xs ! k) = Inr d'" "xs' = xs[k := d']"
      by blast
    have "\<forall>j<Suc k. doc.oid ((x # xs) ! j) \<noteq> i"
      using False k(3) by (auto simp: less_Suc_eq_0_disj)
    with k xs'(2) have "Suc k < length (x # xs) \<and> doc.oid ((x # xs) ! Suc k) = i \<and>
      (\<forall>j<Suc k. doc.oid ((x # xs) ! j) \<noteq> i) \<and>
      inc_field fld ((x # xs) ! Suc k) = Inr d' \<and> c' = (x # xs)[Suc k := d']"
      by simp
    then show ?thesis by blast
  qed
qed

lemma serialize_inc_b:
  assumes "serialize d = Inr r"
  shows "inc_field ''b_count'' d =
           (if PromptResponse.b_count r + 1 < 2 ^ 63
            then Inr (d\<lparr>doc.b_count := Val (PromptResponse.b_count r + 1)\<rparr>) else Inl OperationFailure)"
  using assms
  by (auto simp: serialize_def inc_field_def inc_def py_int_def get_default_def
           split: field.splits sum.splits option.splits if_splits)

lemma serialize_a_count_update:
  "serialize d = Inr r \<Longrightarrow>
   serialize (d\<lparr>doc.a_count := Val n\<rparr>) = Inr (r\<lparr>PromptResponse.a_count := n\<rparr>)"
  by (auto simp: serialize_def py_int_def get_default_def
           split: field.splits sum.splits option.splits)

lemma serialize_b_count_update:
  "serialize d = Inr r \<Longrightarrow>
   serialize (d\<lparr>doc.b_count := Val n\<rparr>) = Inr (r\<lparr>PromptResponse.b_count := n\<rparr>)"
  by (auto simp: serialize_def py_int_def get_default_def
           split: field.splits sum.splits option.splits)

text \<open>
  Claim C1. A vote on a stored prompt that serializes with \<open>a_count = x\<close> and \<open>b_count = y\<close>
  answers with the same record at \<open>a_count = x + 1\<close> and \<open>b_count = y\<close> for option "a", and at
  \<open>a_count = x\<close> and \<open>b_count = y + 1\<close> for option "b". The only vote on a stored prompt that is
  not accepted is the one whose increment would leave the 64-bit integers.
\<close>

theorem vote_counts:
  assumes "ObjectId (prompt_id body) = Some i"
    and "find (\<lambda>d. doc.oid d = i) c = Some d"
    and "serialize d = Inr r"
    and "PromptResponse.a_count r = x" and "PromptResponse.b_count r = y"
  shows "(option body = ''a'' \<longrightarrow>
            fst (vote (Some c) body) =
              (if x + 1 < 2 ^ 63 then Inr (r\<lparr>PromptResponse.a_count := x + 1, PromptResponse.b_count := y\<rparr>)
               else Inl OperationFailure)) \<and>
         (option body = ''b'' \<longrightarrow>
            fst (vote (Some c) body) =
              (if y + 1 < 2 ^ 63 then Inr (r\<lparr>PromptResponse.a_count := x, PromptResponse.b_count := y + 1\<rparr>)
               else Inl OperationFailure))"
proof (intro conjI impI)
  assume a: "option body = ''a''"
  show "fst (vote (Some c) body) =
      (if x + 1 < 2 ^ 63 then Inr (r\<lparr>PromptResponse.a_count := x + 1, PromptResponse.b_count := y\<rparr>)
       else Inl OperationFailure)"
  proof (cases "x + 1 < 2 ^ 63")
    case True
    with assms have "inc_field ''a_count'' d = Inr (d\<lparr>doc.a_count := Val (x + 1)\<rparr>)"
      by (simp add: serialize_inc_a)
    from find_one_and_update_found [OF assms(2) this] obtain k where
      "find_one_and_update c i ''a_count'' = (Inr (Some (d\<lparr>doc.a_count := Val (x + 1)\<rparr>)), c[k := d\<lparr>doc.a_count := Val (x + 1)\<rparr>])"
      by blast
    with a True assms show ?thesis
      by (simp add: vote_def serialize_a_count_update)
  next
    case False
    with assms have "inc_field ''a_count'' d = Inl OperationFailure"
      by (simp add: serialize_inc_a)
    from find_one_and_update_failed [OF assms(2) this] a False assms show ?thesis
      by (simp add: vote_def)
  qed
next
  assume b: "option body = ''b''"
  show "fst (vote (Some c) body) =
      (if y + 1 < 2 ^ 63 then Inr (r\<lparr>PromptResponse.a_count := x, PromptResponse.b_count := y + 1\<rparr>)
       else Inl OperationFailure)"
  proof (cases "y + 1 < 2 ^ 63")
    case True
    with assms have "inc_field ''b_count'' d = Inr (d\<lparr>doc.b_count := Val (y + 1)\<rparr>)"
      by (simp add: serialize_inc_b)
    from find_one_and_update_found [OF assms(2) this] obtain k where
      "find_one_and_update c i ''b_count'' = (Inr (Some (d\<lparr>doc.b_count := Val (y + 1)\<rparr>)), c[k := d\<lparr>doc.b_count := Val (y + 1)\<rparr>])"
      by blast
    with b True assms show ?thesis
      by (simp add: vote_def serialize_b_count_update)
  next
    case False
    with assms have "inc_field ''b_count'' d = Inl OperationFailure"
      by (simp add: serialize_inc_b)
    from find_one_and_update_failed [OF assms(2) this] b False assms show ?thesis
      by (simp add: vote_def)
  qed
qed

theorem vote_counts_witness:
  "fst (vote (Some [example_doc 1 3 5]) \<lparr>prompt_id = ''000000000000000000000001'', option = ''a''\<rparr>) =
     Inr (example_response ''000000000000000000000001'' 4 5) \<and>
   fst (vote (Some [example_doc 1 3 5]) \<lparr>prompt_id = ''000000000000000000000001'', option = ''b''\<rparr>) =
     Inr (example_response ''000000000000000000000001'' 3 6)"
proof -
  let ?r = "example_response ''000000000000000000000001'' 3 5"
  have i: "ObjectId (prompt_id \<lparr>prompt_id = ''000000000000000000000001'', option = o'\<rparr>) = Some (example_gen 1)" for o'
    by (simp add: ObjectId_example_1)
  have f: "find (\<lambda>d. doc.oid d = example_gen 1) [example_doc 1 3 5] = Some (example_doc 1 3 5)"
    by (simp add: example_doc_def)
  have s: "serialize (example_doc 1 3 5) = Inr ?r"
    by (simp only: serialize_example_doc str_oid_example_1)
  have x: "PromptResponse.a_count ?r = 3" and y: "PromptResponse.b_count ?r = 5"
    by (simp_all add: example_response_def)
  from vote_counts [OF i f s x y, of "''a''"] vote_counts [OF i f s x y, of "''b''"]
  show ?thesis by (simp add: example_response_def)
qed

text \<open>What the parser of identifiers refuses and what it accepts.\<close>

lemma digit_not_space: "digit_value c \<noteq> None \<Longrightarrow> \<not> isspace c"
  by (auto simp: digit_value_def isspace_def Let_def split: if_splits)

lemma fromhex_bad_char:
  "\<exists>c\<in>set s. digit_value c = None \<and> \<not> isspace c \<Longrightarrow> fromhex s = None"
proof (induction s rule: fromhex.induct)
  case 1
  then show ?case by simp
next
  case (2 c cs)
  show ?case
  proof (cases "isspace c")
    case True
    with "2.prems" have "\<exists>c\<in>set cs. digit_value c = None \<and> \<not> isspace c" by auto
    with True "2.IH"(1) show ?thesis by simp
  next
    case False
    show ?thesis
    proof (cases cs)
      case Nil
      with False show ?thesis by simp
    next
      case (Cons c' cs')
      show ?thesis
      proof (cases "digit_value c")
        case None
        with False Cons show ?thesis by simp
      next
        case t: (Some t)
        show ?thesis
        proof (cases "digit_value c'")
          case None
          with False Cons t show ?thesis by simp
        next
          case b: (Some b)
          with t Cons "2.prems" have "\<exists>c\<in>set cs'. digit_value c = None \<and> \<not> isspace c"
            by auto
          with "2.IH"(2) [OF False Cons refl t b] False Cons t b
          show ?thesis by simp
        qed
      qed
    qed
  qed
qed


lemma fromhex_length:
  "fromhex s = Some bs \<Longrightarrow> 2 * length bs + length (filter isspace s) = length s"
proof (induction s arbitrary: bs rule: fromhex.induct)
  case 1
  then show ?case by simp
next
  case (2 c cs)
  show ?case
  proof (cases "isspace c")
    case True
    with "2.prems" have "fromhex cs = Some bs" by simp
    from "2.IH"(1) [OF True this] True show ?thesis by simp
  next
    case False
    with "2.prems" obtain c' cs' where cs: "cs = c' # cs'"
      by (cases cs) auto
    from False cs "2.prems" obtain t b where tb: "digit_value c = Some t" "digit_value c' = Some b"
      by (auto split: option.splits)
    with False cs "2.prems" obtain bs' where bs': "fromhex cs' = Some bs'" "bs = of_nat (16 * t + b) # bs'"
      by auto
    from tb(2) have "\<not> isspace c'" by (simp add: digit_not_space)
    with "2.IH"(2) [OF False cs refl tb bs'(1)] False cs bs'(2) show ?thesis by simp
  qed
qed



lemma ObjectId_spaced_short:
  assumes "ObjectId s = Some i" and "\<not> valid_identifier s"
  shows "length i < 12"
proof -
  from assms(1) have len: "length s = 24" and fh: "fromhex s = Some i"
    by (simp_all add: ObjectId_def split: if_splits)
  from fromhex_length [OF fh] len have eq: "2 * length i + length (filter isspace s) = 24"
    by simp
  have "filter isspace s \<noteq> []"
  proof
    assume "filter isspace s = []"
    then have ns: "\<forall>c\<in>set s. \<not> isspace c"
      by (simp add: filter_empty_conv)
    have "\<forall>c\<in>set s. digit_value c \<noteq> None"
    proof (rule ccontr)
      assume "\<not> (\<forall>c\<in>set s. digit_value c \<noteq> None)"
      with ns have "\<exists>c\<in>set s. digit_value c = None \<and> \<not> isspace c" by auto
      then have "fromhex s = None" by (rule fromhex_bad_char)
      with fh show False by simp
    qed
    with len assms(2) show False
      by (simp add: valid_identifier_def list_all_iff)
  qed
  then have "0 < length (filter isspace s)" by simp
  with eq show ?thesis by arith
qed

lemma inc_field_error: "inc_field fld d = Inl e \<Longrightarrow> status_code e = 500"
  by (auto simp: inc_field_def inc_def split: if_splits field.splits sum.splits)

lemma find_one_and_update_error:
  "find_one_and_update c i fld = (Inl e, c') \<Longrightarrow> status_code e = 500"
proof (induction c arbitrary: c')
  case Nil
  then show ?case by simp
next
  case (Cons x xs)
  show ?case
  proof (cases "doc.oid x = i")
    case True
    with Cons.prems have "inc_field fld x = Inl e"
      by (auto split: sum.splits)
    then show ?thesis by (rule inc_field_error)
  next
    case False
    with Cons.prems obtain xs' where "find_one_and_update xs i fld = (Inl e, xs')"
      by (auto split: prod.splits)
    then show ?thesis by (rule Cons.IH)
  qed
qed

lemma serialize_error: "serialize d = Inl e \<Longrightarrow> status_code e = 500"
  by (auto simp: serialize_def py_int_def split: sum.splits option.splits)






text \<open>
  The amended claim names the malformed identifiers and not all strings that are no store
  identifier: a string of 24 characters in which whitespace stands between pairs of digits is
  accepted by the parser, as an identifier of fewer than 12 bytes, and the vote is not answered
  with status 400.
\<close>

lemma vote_spaced_id_not_400:
  "\<not> valid_identifier ''00 00 00 00 00 00 00 00 '' \<and>
   \<not> malformed_identifier ''00 00 00 00 00 00 00 00 '' \<and>
   ObjectId ''00 00 00 00 00 00 00 00 '' = Some [0, 0, 0, 0, 0, 0, 0, 0] \<and>
   fst (vote (Some example_store) \<lparr>prompt_id = ''00 00 00 00 00 00 00 00 '', option = ''a''\<rparr>) \<noteq>
     Inl (HTTPException 400 ''Invalid prompt_id'')"
proof -
  have o: "ObjectId ''00 00 00 00 00 00 00 00 '' = Some [0, 0, 0, 0, 0, 0, 0, 0]"
    by (simp add: ObjectId_def isspace_def digit_value_def)
  have "find_one_and_update example_store [0, 0, 0, 0, 0, 0, 0, 0] ''a_count'' = (Inr None, example_store)"
    by (simp add: example_store_def oid_example_doc) (simp add: example_gen_def)
  with o have "fst (vote (Some example_store) \<lparr>prompt_id = ''00 00 00 00 00 00 00 00 '', option = ''a''\<rparr>) =
      Inl (HTTPException 404 ''Prompt not found'')"
    by (simp add: vote_def)
  moreover have "\<not> valid_identifier ''00 00 00 00 00 00 00 00 ''"
    by (simp add: valid_identifier_def digit_value_def)
  moreover have "\<not> malformed_identifier ''00 00 00 00 00 00 00 00 ''"
    by (simp add: malformed_identifier_def digit_value_def isspace_def)
  ultimately show ?thesis using o by simp
qed

text \<open>
  Claim C10. With no database configured every vote fails with status 500 and detail
  "Database not configured", whatever its \<open>prompt_id\<close>; a vote that is answered with status 400
  was made with a database configured and has a \<open>prompt_id\<close> that \<open>ObjectId\<close> refuses.
\<close>

theorem vote_unconfigured:
  "vote None body = (Inl (HTTPException 500 ''Database not configured''), None) \<and>
   status_code (HTTPException 500 ''Database not configured'') = 500 \<and>
   (\<forall>db e. fst (vote db body) = Inl e \<and> status_code e = 400 \<longrightarrow>
      db \<noteq> None \<and> ObjectId (prompt_id body) = None)"
proof -
  have "db \<noteq> None \<and> ObjectId (prompt_id body) = None"
    if e: "fst (vote db body) = Inl e" "status_code e = 400" for db e
  proof (cases db)
    case None
    with e show ?thesis by (auto simp: vote_def)
  next
    case c: (Some c)
    show ?thesis
    proof (cases "ObjectId (prompt_id body)")
      case None
      with c show ?thesis by simp
    next
      case (Some i)
      define fld where "fld = (if option body = ''a'' then ''a_count'' else ''b_count'')"
      obtain r c' where fou: "find_one_and_update c i fld = (r, c')"
        by (cases "find_one_and_update c i fld") auto
      have "status_code e \<noteq> 400"
      proof (cases r)
        case (Inl e')
        with fou c Some e(1) have "e = e'"
          by (simp add: vote_def fld_def)
        moreover from fou Inl have "status_code e' = 500"
          by (auto dest: find_one_and_update_error)
        ultimately show ?thesis by simp
      next
        case (Inr u)
        show ?thesis
        proof (cases u)
          case None
          with fou c Some e(1) Inr show ?thesis
            by (auto simp: vote_def fld_def)
        next
          case u: (Some d')
          with fou c Some e(1) Inr have "serialize d' = Inl e"
            by (simp add: vote_def fld_def)
          then have "status_code e = 500" by (rule serialize_error)
          then show ?thesis by simp
        qed
      qed
      with e(2) show ?thesis by simp
    qed
  qed
  then have only: "\<forall>db e. fst (vote db body) = Inl e \<and> status_code e = 400 \<longrightarrow>
      db \<noteq> None \<and> ObjectId (prompt_id body) = None"
    by blast
  have none: "vote None body = (Inl (HTTPException 500 ''Database not configured''), None)"
    by (simp add: vote_def)
  with only show ?thesis by simp
qed


theorem vote_unconfigured_witness:
  "vote None \<lparr>prompt_id = ''not-an-id'', option = ''a''\<rparr> =
     (Inl (HTTPException 500 ''Database not configured''), None) \<and>
   fst (vote (Some []) \<lparr>prompt_id = ''not-an-id'', option = ''a''\<rparr>) =
     Inl (HTTPException 400 ''Invalid prompt_id'') \<and>
   Some [] \<noteq> (None :: database) \<and>
   ObjectId (prompt_id \<lparr>prompt_id = ''not-an-id'', option = ''a''\<rparr>) = None"
proof -
  let ?b = "\<lparr>prompt_id = ''not-an-id'', option = ''a''\<rparr>"
  have e: "fst (vote (Some []) ?b) = Inl (HTTPException 400 ''Invalid prompt_id'')"
    by (simp add: vote_def ObjectId_malformed)
  from vote_unconfigured [of ?b] have
    n: "vote None ?b = (Inl (HTTPException 500 ''Database not configured''), None)" and
    o: "\<forall>db e. fst (vote db ?b) = Inl e \<and> status_code e = 400 \<longrightarrow>
          db \<noteq> None \<and> ObjectId (prompt_id ?b) = None"
    by blast+
  from o e have "Some [] \<noteq> (None :: database) \<and> ObjectId (prompt_id ?b) = None"
    by (metis status_code.simps(1))
  with n e show ?thesis by blast
qed

subsection \<open>Creation\<close>

lemma hexdigit_inj: "m < 16 \<Longrightarrow> n < 16 \<Longrightarrow> hexdigit m = hexdigit n \<Longrightarrow> m = n"
proof -
  assume m: "m < 16" and n: "n < 16" and eq: "hexdigit m = hexdigit n"
  have d: "distinct ''0123456789abcdef''" by simp
  have l: "length ''0123456789abcdef'' = 16" by simp
  from eq have "''0123456789abcdef'' ! m = ''0123456789abcdef'' ! n"
    by (simp only: hexdigit_def)
  with d l m n show "m = n"
    by (simp only: nth_eq_iff_index_eq)
qed

lemma byte_digits_inj:
  fixes a b :: byte
  assumes "hexdigit (unat a div 16) = hexdigit (unat b div 16)"
    and "hexdigit (unat a mod 16) = hexdigit (unat b mod 16)"
  shows "a = b"
proof -
  have "unat a < 256" "unat b < 256"
    using unsigned_less [of a, where 'a = nat] unsigned_less [of b, where 'a = nat] by simp_all
  then have "unat a div 16 < 16" "unat b div 16 < 16" by auto
  with assms(1) have hi: "unat a div 16 = unat b div 16" by (auto intro: hexdigit_inj)
  have "unat a mod 16 < 16" "unat b mod 16 < 16" by simp_all
  with assms(2) have lo: "unat a mod 16 = unat b mod 16" by (auto intro: hexdigit_inj)
  have "unat a = 16 * (unat a div 16) + unat a mod 16" by simp
  also have "\<dots> = 16 * (unat b div 16) + unat b mod 16" using hi lo by simp
  also have "\<dots> = unat b" by simp
  finally show ?thesis by (simp add: word_unat_eq_iff)
qed

lemma str_oid_inj: "str_oid x = str_oid y \<Longrightarrow> x = y"
proof (induction x arbitrary: y)
  case Nil
  then show ?case by (cases y) simp_all
next
  case (Cons a x)
  then obtain b y' where y: "y = b # y'" by (cases y) simp_all
  with Cons.prems have "a = b" "str_oid x = str_oid y'"
    by (simp_all add: byte_digits_inj)
  with Cons.IH y show ?case by simp
qed

lemma serialize_model_dump:
  "serialize ((model_dump body)\<lparr>doc.a_count := Val 0, doc.b_count := Val 0, doc.oid := i\<rparr>) =
     Inr \<lparr>id_str = str_oid i, option_a = PromptCreate.option_a body,
          option_b = PromptCreate.option_b body, category = PromptCreate.category body,
          created_by = PromptCreate.created_by body, a_count = 0, b_count = 0\<rparr>"
  by (simp add: serialize_def model_dump_def py_int_def get_def get_default_def split: option.splits)

text \<open>
  Claim C3. For a valid creation input and a configured database, \<open>create_prompt\<close> with a
  generated identifier that is not stored returns the response with both counts 0 and the
  identifier of the inserted record; and whenever \<open>create_prompt\<close> returns a response, its counts
  are 0, its identifier is the generated one, the record was appended under that identifier, and
  the identifier differs from the identifier of every record stored before.
\<close>

theorem create_prompt_fresh:
  assumes "PromptCreate_valid body"
  shows "(new_id \<notin> set (map doc.oid c) \<longrightarrow>
            create_prompt (Some c) new_id body =
              (Inr \<lparr>id_str = str_oid new_id, option_a = PromptCreate.option_a body,
                    option_b = PromptCreate.option_b body, category = PromptCreate.category body,
                    created_by = PromptCreate.created_by body, a_count = 0, b_count = 0\<rparr>,
               Some (c @ [(model_dump body)\<lparr>doc.a_count := Val 0, doc.b_count := Val 0, doc.oid := new_id\<rparr>]))) \<and>
         (\<forall>r db'. create_prompt (Some c) new_id body = (Inr r, db') \<longrightarrow>
            PromptResponse.a_count r = 0 \<and> PromptResponse.b_count r = 0 \<and>
            id_str r = str_oid new_id \<and>
            (\<exists>d. db' = Some (c @ [d]) \<and> doc.oid d = new_id) \<and>
            new_id \<notin> set (map doc.oid c) \<and>
            id_str r \<notin> set (map (\<lambda>d. str_oid (doc.oid d)) c))"
proof (rule conjI; intro impI allI)
  assume "new_id \<notin> set (map doc.oid c)"
  then show "create_prompt (Some c) new_id body =
              (Inr \<lparr>id_str = str_oid new_id, option_a = PromptCreate.option_a body,
                    option_b = PromptCreate.option_b body, category = PromptCreate.category body,
                    created_by = PromptCreate.created_by body, a_count = 0, b_count = 0\<rparr>,
               Some (c @ [(model_dump body)\<lparr>doc.a_count := Val 0, doc.b_count := Val 0, doc.oid := new_id\<rparr>]))"
    by (simp add: create_prompt_def insert_one_def Let_def serialize_model_dump)
next
  fix r db'
  assume ok: "create_prompt (Some c) new_id body = (Inr r, db')"
  have fresh: "new_id \<notin> set (map doc.oid c)"
  proof
    assume "new_id \<in> set (map doc.oid c)"
    then have "create_prompt (Some c) new_id body = (Inl DuplicateKeyError, Some c)"
      by (simp add: create_prompt_def insert_one_def Let_def)
    with ok show False by simp
  qed
  with ok have r: "r = \<lparr>id_str = str_oid new_id, option_a = PromptCreate.option_a body,
                    option_b = PromptCreate.option_b body, category = PromptCreate.category body,
                    created_by = PromptCreate.created_by body, a_count = 0, b_count = 0\<rparr>"
    and db': "db' = Some (c @ [(model_dump body)\<lparr>doc.a_count := Val 0, doc.b_count := Val 0, doc.oid := new_id\<rparr>])"
    by (simp_all add: create_prompt_def insert_one_def Let_def serialize_model_dump)
  have strs: "str_oid new_id \<notin> set (map (\<lambda>d. str_oid (doc.oid d)) c)"
    using fresh by (auto dest: str_oid_inj)
  show "PromptResponse.a_count r = 0 \<and> PromptResponse.b_count r = 0 \<and>
            id_str r = str_oid new_id \<and>
            (\<exists>d. db' = Some (c @ [d]) \<and> doc.oid d = new_id) \<and>
            new_id \<notin> set (map doc.oid c) \<and>
            id_str r \<notin> set (map (\<lambda>d. str_oid (doc.oid d)) c)"
    using r db' fresh strs by simp
qed


theorem create_prompt_fresh_witness:
  "create_prompt (Some [example_doc 1 3 5]) (example_gen 2) example_body =
     (Inr \<lparr>id_str = ''000000000000000000000002'', option_a = ''read a book'',
           option_b = ''watch a film'', category = ''evening'', created_by = None,
           a_count = 0, b_count = 0\<rparr>,
      Some [example_doc 1 3 5,
            \<lparr>oid = example_gen 2, option_a = Val ''read a book'', option_b = Val ''watch a film'',
             category = Val ''evening'', created_by = Null, a_count = Val 0, b_count = Val 0\<rparr>]) \<and>
   ''000000000000000000000002'' \<notin> set (map (\<lambda>d. str_oid (doc.oid d)) [example_doc 1 3 5])"
proof -
  have v: "PromptCreate_valid example_body"
    by (simp add: PromptCreate_valid_def example_body_def)
  have f: "example_gen 2 \<notin> set (map doc.oid [example_doc 1 3 5])"
    by (simp add: example_doc_def example_gen_def)
  from create_prompt_fresh [OF v, of "example_gen 2" "[example_doc 1 3 5]"] f
  have eq: "create_prompt (Some [example_doc 1 3 5]) (example_gen 2) example_body =
      (Inr \<lparr>id_str = str_oid (example_gen 2), option_a = PromptCreate.option_a example_body,
            option_b = PromptCreate.option_b example_body, category = PromptCreate.category example_body,
            created_by = PromptCreate.created_by example_body, a_count = 0, b_count = 0\<rparr>,
       Some ([example_doc 1 3 5] @ [(model_dump example_body)\<lparr>doc.a_count := Val 0, doc.b_count := Val 0, doc.oid := example_gen 2\<rparr>]))"
    and rest: "\<forall>r db'. create_prompt (Some [example_doc 1 3 5]) (example_gen 2) example_body = (Inr r, db') \<longrightarrow>
            PromptResponse.a_count r = 0 \<and> PromptResponse.b_count r = 0 \<and>
            id_str r = str_oid (example_gen 2) \<and>
            (\<exists>d. db' = Some ([example_doc 1 3 5] @ [d]) \<and> doc.oid d = example_gen 2) \<and>
            example_gen 2 \<notin> set (map doc.oid [example_doc 1 3 5]) \<and>
            id_str r \<notin> set (map (\<lambda>d. str_oid (doc.oid d)) [example_doc 1 3 5])"
    by blast+
  from rest eq have "str_oid (example_gen 2) \<notin> set (map (\<lambda>d. str_oid (doc.oid d)) [example_doc 1 3 5])"
    by (metis PromptResponse.select_convs(1))
  with eq show ?thesis
    by (simp add: str_oid_example_2 example_body_def model_dump_def)
qed

subsection \<open>Seeding and the random prompt\<close>

lemma seed_loop_fresh:
  "distinct (map gen [k..<k + length ps]) \<Longrightarrow>
   set (map gen [k..<k + length ps]) \<inter> set (map doc.oid c) = {} \<Longrightarrow>
   seed_loop gen k ps c =
     (Inr (), c @ map (\<lambda>(j, a, b). (seed_doc a b)\<lparr>doc.oid := gen j\<rparr>) (zip [k..<k + length ps] ps))"
proof (induction ps arbitrary: k c)
  case Nil
  then show ?case by simp
next
  case (Cons p ps)
  obtain a b where p: "p = (a, b)" by (cases p)
  have "k < Suc k + length ps" by simp
  then have "[k..<Suc k + length ps] = k # [Suc k..<Suc k + length ps]"
    by (rule upt_conv_Cons)
  moreover have "k + length (p # ps) = Suc k + length ps" by simp
  ultimately have up: "[k..<k + length (p # ps)] = k # [Suc k..<Suc k + length ps]"
    by (simp only:)
  let ?js = "[Suc k..<Suc k + length ps]"
  from Cons.prems(1) have p1: "distinct (map gen (k # ?js))" by (simp only: up)
  from Cons.prems(2) have p2: "set (map gen (k # ?js)) \<inter> set (map doc.oid c) = {}"
    by (simp only: up)
  from p2 have fresh: "gen k \<notin> set (map doc.oid c)" by auto
  let ?c = "c @ [(seed_doc a b)\<lparr>doc.oid := gen k\<rparr>]"
  from p1 have d: "distinct (map gen ?js)" and nk: "gen k \<notin> set (map gen ?js)"
    by simp_all
  from p2 nk have "set (map gen ?js) \<inter> set (map doc.oid ?c) = {}"
    by auto
  from Cons.IH [OF d this]
  have "seed_loop gen (Suc k) ps ?c =
    (Inr (), ?c @ map (\<lambda>(j, a, b). (seed_doc a b)\<lparr>doc.oid := gen j\<rparr>) (zip ?js ps))" .
  with fresh p have "seed_loop gen k (p # ps) c =
    (Inr (), c @ map (\<lambda>(j, a, b). (seed_doc a b)\<lparr>doc.oid := gen j\<rparr>) (zip (k # ?js) (p # ps)))"
    by (simp add: insert_one_def)
  then show ?case by (simp only: up)
qed

lemma length_STARTER_PROMPTS: "length STARTER_PROMPTS = 6"
  by (simp add: STARTER_PROMPTS_def)

text \<open>
  Claim C4. \<open>STARTER_PROMPTS\<close> has 6 pairs. On a collection whose count is 0, with distinct
  generated identifiers, \<open>ensure_seeded\<close> leaves exactly the 6 starter pairs, in order, each with
  category "general", creator "seed" and both counts 0; on a collection whose count is above 0 it
  leaves the collection as it is.
\<close>

theorem ensure_seeded_inserts_starters:
  "length STARTER_PROMPTS = 6 \<and>
   (distinct (map gen [0..<6]) \<longrightarrow>
      ensure_seeded (Some []) gen =
        (Inr (), Some (map (\<lambda>(j, a, b).
            \<lparr>oid = gen j, option_a = Val a, option_b = Val b, category = Val ''general'',
             created_by = Val ''seed'', a_count = Val 0, b_count = Val 0\<rparr>)
          (zip [0..<6] STARTER_PROMPTS)))) \<and>
   (0 < count_documents c \<longrightarrow> ensure_seeded (Some c) gen = (Inr (), Some c)) \<and>
   (count_documents c = 0 \<longleftrightarrow> c = [])"
proof (intro conjI impI)
  show "length STARTER_PROMPTS = 6" by (rule length_STARTER_PROMPTS)
next
  assume "distinct (map gen [0..<6])"
  then have "seed_loop gen 0 STARTER_PROMPTS [] =
     (Inr (), [] @ map (\<lambda>(j, a, b). (seed_doc a b)\<lparr>doc.oid := gen j\<rparr>) (zip [0..<0 + length STARTER_PROMPTS] STARTER_PROMPTS))"
    by (intro seed_loop_fresh) (simp_all add: length_STARTER_PROMPTS)
  moreover have "(\<lambda>(j, a, b). (seed_doc a b)\<lparr>doc.oid := gen j\<rparr>) = (\<lambda>(j, a, b).
            \<lparr>oid = gen j, option_a = Val a, option_b = Val b, category = Val ''general'',
             created_by = Val ''seed'', a_count = Val 0, b_count = Val 0\<rparr>)"
    by (simp add: seed_doc_def fun_eq_iff)
  ultimately show "ensure_seeded (Some []) gen =
        (Inr (), Some (map (\<lambda>(j, a, b).
            \<lparr>oid = gen j, option_a = Val a, option_b = Val b, category = Val ''general'',
             created_by = Val ''seed'', a_count = Val 0, b_count = Val 0\<rparr>)
          (zip [0..<6] STARTER_PROMPTS)))"
    by (simp add: ensure_seeded_def count_documents_def length_STARTER_PROMPTS)
next
  assume "0 < count_documents c"
  then show "ensure_seeded (Some c) gen = (Inr (), Some c)"
    by (simp add: ensure_seeded_def)
next
  show "count_documents c = 0 \<longleftrightarrow> c = []"
    by (simp add: count_documents_def)
qed


theorem ensure_seeded_inserts_starters_witness:
  "ensure_seeded (Some []) example_gen =
     (Inr (), Some
       [\<lparr>oid = example_gen 0, option_a = Val ''be able to fly for a day'', option_b = Val ''turn invisible for a day'',
         category = Val ''general'', created_by = Val ''seed'', a_count = Val 0, b_count = Val 0\<rparr>,
        \<lparr>oid = example_gen 1, option_a = Val ''eat pancakes for dinner'', option_b = Val ''eat pizza for breakfast'',
         category = Val ''general'', created_by = Val ''seed'', a_count = Val 0, b_count = Val 0\<rparr>,
        \<lparr>oid = example_gen 2, option_a = Val ''have a pet dinosaur'', option_b = Val ''have a pet dragon'',
         category = Val ''general'', created_by = Val ''seed'', a_count = Val 0, b_count = Val 0\<rparr>,
        \<lparr>oid = example_gen 3, option_a = Val ''swim with dolphins'', option_b = Val ''camp under the stars'',
         category = Val ''general'', created_by = Val ''seed'', a_count = Val 0, b_count = Val 0\<rparr>,
        \<lparr>oid = example_gen 4, option_a = Val ''build a giant pillow fort'', option_b = Val ''have a massive water balloon fight'',
         category = Val ''general'', created_by = Val ''seed'', a_count = Val 0, b_count = Val 0\<rparr>,
        \<lparr>oid = example_gen 5, option_a = Val ''never do homework again'', option_b = Val ''never do chores again'',
         category = Val ''general'', created_by = Val ''seed'', a_count = Val 0, b_count = Val 0\<rparr>]) \<and>
   ensure_seeded (Some [example_doc 1 3 5]) example_gen = (Inr (), Some [example_doc 1 3 5])"
proof -
  have z: "[0..<6] = [0, 1, 2, 3, 4, 5::nat]" by (simp add: upt_rec)
  have c: "0 < count_documents [example_doc 1 3 5]" by (simp add: count_documents_def)
  from ensure_seeded_inserts_starters [of example_gen "[example_doc 1 3 5]"] distinct_example_gen c
  show ?thesis
    by (simp add: z STARTER_PROMPTS_def)
qed

lemma seed_loop_outcome:
  "seed_loop gen k ps c = (r, c') \<Longrightarrow>
   (r = Inr () \<and> length c' = length c + length ps) \<or> r = Inl DuplicateKeyError"
proof (induction ps arbitrary: k c)
  case Nil
  then show ?case by auto
next
  case (Cons p ps)
  obtain a b where p: "p = (a, b)" by (cases p)
  show ?case
  proof (cases "gen k \<in> set (map doc.oid c)")
    case True
    with Cons.prems p show ?thesis by (auto simp: insert_one_def)
  next
    case False
    with Cons.prems p have "seed_loop gen (Suc k) ps (c @ [(seed_doc a b)\<lparr>doc.oid := gen k\<rparr>]) = (r, c')"
      by (simp add: insert_one_def)
    from Cons.IH [OF this] show ?thesis by auto
  qed
qed

lemma ensure_seeded_empty:
  assumes "distinct (map gen [0..<6])"
  shows "ensure_seeded (Some []) gen =
        (Inr (), Some (map (\<lambda>(j, a, b). (seed_doc a b)\<lparr>doc.oid := gen j\<rparr>) (zip [0..<6] STARTER_PROMPTS)))"
proof -
  from assms have "seed_loop gen 0 STARTER_PROMPTS [] =
     (Inr (), [] @ map (\<lambda>(j, a, b). (seed_doc a b)\<lparr>doc.oid := gen j\<rparr>) (zip [0..<0 + length STARTER_PROMPTS] STARTER_PROMPTS))"
    by (intro seed_loop_fresh) (simp_all add: length_STARTER_PROMPTS)
  then show ?thesis
    by (simp add: ensure_seeded_def count_documents_def length_STARTER_PROMPTS)
qed

lemma serialize_seed_doc:
  "serialize ((seed_doc a b)\<lparr>doc.oid := i\<rparr>) =
     Inr \<lparr>id_str = str_oid i, option_a = a, option_b = b, category = ''general'',
          created_by = Some ''seed'', a_count = 0, b_count = 0\<rparr>"
  by (simp add: serialize_def seed_doc_def py_int_def get_def get_default_def)

text \<open>
  Claim C6. On the empty collection \<open>get_random_prompt\<close> never answers 404; with distinct
  generated identifiers it seeds the collection with the 6 starter pairs and returns one of them,
  with category "general", creator "seed" and both counts 0.
\<close>

theorem get_random_prompt_empty_seeds:
  "(\<forall>e. fst (get_random_prompt (Some []) gen pick) = Inl e \<longrightarrow> status_code e \<noteq> 404) \<and>
   (distinct (map gen [0..<6]) \<longrightarrow>
      get_random_prompt (Some []) gen pick =
        (Inr \<lparr>id_str = str_oid (gen (pick mod 6)), option_a = fst (STARTER_PROMPTS ! (pick mod 6)),
              option_b = snd (STARTER_PROMPTS ! (pick mod 6)), category = ''general'',
              created_by = Some ''seed'', a_count = 0, b_count = 0\<rparr>,
         Some (map (\<lambda>(j, a, b). (seed_doc a b)\<lparr>doc.oid := gen j\<rparr>) (zip [0..<6] STARTER_PROMPTS))) \<and>
      STARTER_PROMPTS ! (pick mod 6) \<in> set STARTER_PROMPTS)"
proof (rule conjI; intro allI impI)
  fix e
  assume e: "fst (get_random_prompt (Some []) gen pick) = Inl e"
  obtain r c' where sl: "seed_loop gen 0 STARTER_PROMPTS [] = (r, c')"
    by (cases "seed_loop gen 0 STARTER_PROMPTS []") auto
  from seed_loop_outcome [OF sl]
  show "status_code e \<noteq> 404"
  proof
    assume ok: "r = Inr () \<and> length c' = length [] + length STARTER_PROMPTS"
    then have ne: "c' \<noteq> []" by (auto simp: length_STARTER_PROMPTS)
    with ok sl e have "serialize (c' ! (pick mod length c')) = Inl e"
      by (simp add: get_random_prompt_def ensure_seeded_def count_documents_def sample_def)
    then have "status_code e = 500" by (rule serialize_error)
    then show ?thesis by simp
  next
    assume "r = Inl DuplicateKeyError"
    with sl e have "e = DuplicateKeyError"
      by (simp add: get_random_prompt_def ensure_seeded_def count_documents_def)
    then show ?thesis by simp
  qed
next
  assume d: "distinct (map gen [0..<6])"
  let ?f = "\<lambda>(j, a, b). (seed_doc a b)\<lparr>doc.oid := gen j\<rparr>"
  let ?c = "map ?f (zip [0..<6] STARTER_PROMPTS)"
  let ?j = "pick mod 6"
  have j: "?j < 6" by simp
  have len: "length ?c = 6" by (simp add: length_STARTER_PROMPTS)
  have "?c ! ?j = ?f (?j, STARTER_PROMPTS ! ?j)"
    using j by (simp add: length_STARTER_PROMPTS del: upt_Suc)
  then have nth: "?c ! ?j = (seed_doc (fst (STARTER_PROMPTS ! ?j)) (snd (STARTER_PROMPTS ! ?j)))\<lparr>doc.oid := gen ?j\<rparr>"
    by (simp add: case_prod_beta)
  have ne: "?c \<noteq> []" using len by auto
  have "sample ?c pick = [?c ! ?j]"
    using ne len by (simp only: sample_def if_False)
  with nth have "sample ?c pick = [(seed_doc (fst (STARTER_PROMPTS ! ?j)) (snd (STARTER_PROMPTS ! ?j)))\<lparr>doc.oid := gen ?j\<rparr>]"
    by (simp only:)
  with ensure_seeded_empty [OF d]
  have "get_random_prompt (Some []) gen pick =
         (Inr \<lparr>id_str = str_oid (gen ?j), option_a = fst (STARTER_PROMPTS ! ?j),
               option_b = snd (STARTER_PROMPTS ! ?j), category = ''general'',
               created_by = Some ''seed'', a_count = 0, b_count = 0\<rparr>, Some ?c)"
    by (simp add: get_random_prompt_def serialize_seed_doc)
  moreover have "STARTER_PROMPTS ! ?j \<in> set STARTER_PROMPTS"
    using j by (simp add: length_STARTER_PROMPTS)
  ultimately show "get_random_prompt (Some []) gen pick =
        (Inr \<lparr>id_str = str_oid (gen (pick mod 6)), option_a = fst (STARTER_PROMPTS ! (pick mod 6)),
              option_b = snd (STARTER_PROMPTS ! (pick mod 6)), category = ''general'',
              created_by = Some ''seed'', a_count = 0, b_count = 0\<rparr>,
         Some (map (\<lambda>(j, a, b). (seed_doc a b)\<lparr>doc.oid := gen j\<rparr>) (zip [0..<6] STARTER_PROMPTS))) \<and>
      STARTER_PROMPTS ! (pick mod 6) \<in> set STARTER_PROMPTS"
    by (rule conjI)
qed

theorem get_random_prompt_empty_seeds_witness:
  "fst (get_random_prompt (Some []) example_gen 7) =
     Inr \<lparr>id_str = ''000000000000000000000001'', option_a = ''eat pancakes for dinner'',
          option_b = ''eat pizza for breakfast'', category = ''general'', created_by = Some ''seed'',
          a_count = 0, b_count = 0\<rparr> \<and>
   (''eat pancakes for dinner'', ''eat pizza for breakfast'') \<in> set STARTER_PROMPTS \<and>
   fst (get_random_prompt (Some []) (\<lambda>k. []) 7) = Inl DuplicateKeyError \<and>
   status_code DuplicateKeyError \<noteq> 404"
proof -
  have m: "(7::nat) mod 6 = 1" by simp
  have n: "STARTER_PROMPTS ! 1 = (''eat pancakes for dinner'', ''eat pizza for breakfast'')"
    by (simp add: STARTER_PROMPTS_def)
  from get_random_prompt_empty_seeds [of example_gen 7] distinct_example_gen
  have "get_random_prompt (Some []) example_gen 7 =
        (Inr \<lparr>id_str = str_oid (example_gen (7 mod 6)), option_a = fst (STARTER_PROMPTS ! (7 mod 6)),
              option_b = snd (STARTER_PROMPTS ! (7 mod 6)), category = ''general'',
              created_by = Some ''seed'', a_count = 0, b_count = 0\<rparr>,
         Some (map (\<lambda>(j, a, b). (seed_doc a b)\<lparr>doc.oid := example_gen j\<rparr>) (zip [0..<6] STARTER_PROMPTS)))"
    and "STARTER_PROMPTS ! (7 mod 6) \<in> set STARTER_PROMPTS"
    by blast+
  then have ok: "fst (get_random_prompt (Some []) example_gen 7) =
     Inr \<lparr>id_str = ''000000000000000000000001'', option_a = ''eat pancakes for dinner'',
          option_b = ''eat pizza for breakfast'', category = ''general'', created_by = Some ''seed'',
          a_count = 0, b_count = 0\<rparr> \<and>
   (''eat pancakes for dinner'', ''eat pizza for breakfast'') \<in> set STARTER_PROMPTS"
    by (simp only: m n str_oid_example_1 fst_conv snd_conv)
  have dup: "fst (get_random_prompt (Some []) (\<lambda>k. []) 7) = Inl DuplicateKeyError"
    by (simp add: get_random_prompt_def ensure_seeded_def count_documents_def STARTER_PROMPTS_def
        insert_one_def)
  from get_random_prompt_empty_seeds [of "\<lambda>k. []" 7] dup
  have "status_code DuplicateKeyError \<noteq> 404" by blast
  with ok dup show ?thesis by blast
qed

subsection \<open>Ranking\<close>

lemma key_less_irrefl: "\<not> key_less a a"
  by (cases a) simp_all

lemma key_less_trans: "key_less a b \<Longrightarrow> key_less b c \<Longrightarrow> key_less a c"
  by (cases a; cases b; cases c) simp_all

lemma key_less_linear: "key_less a b \<or> a = b \<or> key_less b a"
  by (cases a; cases b) auto

lemma key_not_less_trans: "\<not> key_less a b \<Longrightarrow> \<not> key_less b c \<Longrightarrow> \<not> key_less a c"
  by (cases a; cases b; cases c) simp_all

lemma key_less_asym: "key_less a b \<Longrightarrow> \<not> key_less b a"
  by (cases a; cases b) simp_all

lemma doc_ge_total: "doc_ge x y \<or> doc_ge y x"
  unfolding doc_ge_def
  using key_less_linear [of "bson_key (doc.a_count x)" "bson_key (doc.a_count y)"]
  by (auto dest: key_less_asym)

lemma doc_ge_trans: "doc_ge x y \<Longrightarrow> doc_ge y z \<Longrightarrow> doc_ge x z"
  unfolding doc_ge_def
  by (auto intro: key_less_trans dest: key_not_less_trans)

lemma set_insort_desc: "set (insort_desc x xs) = insert x (set xs)"
  by (induction xs) auto

lemma length_insort_desc: "length (insort_desc x xs) = Suc (length xs)"
  by (induction xs) auto

lemma sorted_insort_desc:
  "sorted_wrt doc_ge xs \<Longrightarrow> sorted_wrt doc_ge (insort_desc x xs)"
proof (induction xs)
  case Nil
  then show ?case by simp
next
  case (Cons y ys)
  show ?case
  proof (cases "doc_ge x y")
    case True
    with Cons.prems show ?thesis
      by (auto intro: doc_ge_trans)
  next
    case False
    with doc_ge_total [of x y] have "doc_ge y x" by simp
    with False Cons show ?thesis
      by (auto simp: set_insort_desc)
  qed
qed

lemma set_sort_desc: "set (sort_desc xs) = set xs"
  by (induction xs) (simp_all add: set_insort_desc)

lemma length_sort_desc: "length (sort_desc xs) = length xs"
  by (induction xs) (simp_all add: length_insort_desc)

lemma sorted_sort_desc: "sorted_wrt doc_ge (sort_desc xs)"
  by (induction xs) (simp_all add: sorted_insort_desc)

lemma sorted_limit_cursor: "sorted_wrt doc_ge ds \<Longrightarrow> sorted_wrt doc_ge (limit_cursor n ds)"
  by (simp add: limit_cursor_def)

lemma set_limit_cursor: "set (limit_cursor n ds) \<subseteq> set ds"
  by (auto simp: limit_cursor_def dest: in_set_takeD)

lemma length_limit_cursor: "0 < n \<Longrightarrow> int (length (limit_cursor n ds)) \<le> n"
  by (simp add: limit_cursor_def)

lemma serialize_all_Inr:
  "serialize_all ds = Inr rs \<Longrightarrow> list_all2 (\<lambda>d r. serialize d = Inr r) ds rs"
  by (induction ds arbitrary: rs) (auto split: sum.splits)

lemma serialize_all_total:
  "\<forall>d\<in>set ds. \<exists>r. serialize d = Inr r \<Longrightarrow> \<exists>rs. serialize_all ds = Inr rs"
  by (induction ds) (auto split: sum.splits)

lemma serialize_keys:
  "serialize d = Inr r \<Longrightarrow> has_counts d \<Longrightarrow>
   bson_key (doc.a_count d) = Some (PromptResponse.a_count r) \<and>
   bson_key (doc.b_count d) = Some (PromptResponse.b_count r)"
  by (auto simp: serialize_def has_counts_def bson_key_def py_int_def get_default_def
      split: field.splits sum.splits option.splits)

lemma doc_ge_serialized:
  assumes "doc_ge x y" "serialize x = Inr rx" "serialize y = Inr ry" "has_counts x" "has_counts y"
  shows "PromptResponse.a_count ry < PromptResponse.a_count rx \<or>
         (PromptResponse.a_count rx = PromptResponse.a_count ry \<and>
          PromptResponse.b_count ry \<le> PromptResponse.b_count rx)"
  using assms(1) serialize_keys [OF assms(2,4)] serialize_keys [OF assms(3,5)]
  by (auto simp: doc_ge_def)

text \<open>
  Every document of a collection that the service has built from the empty one has both counts.
\<close>

lemma has_counts_inc_field: "inc_field fld d = Inr d' \<Longrightarrow> has_counts d \<Longrightarrow> has_counts d'"
  by (auto simp: inc_field_def inc_def has_counts_def split: if_splits sum.splits field.splits)

lemma has_counts_find_one_and_update:
  "find_one_and_update c i fld = (u, c') \<Longrightarrow> \<forall>d\<in>set c. has_counts d \<Longrightarrow> \<forall>d\<in>set c'. has_counts d"
proof (induction c arbitrary: u c')
  case Nil
  then show ?case by simp
next
  case (Cons x xs)
  show ?case
  proof (cases "doc.oid x = i")
    case True
    show ?thesis
    proof (cases "inc_field fld x")
      case (Inl e)
      with True Cons.prems show ?thesis by simp
    next
      case (Inr x')
      with True Cons.prems(1) have "c' = x' # xs" by simp
      with Cons.prems(2) has_counts_inc_field [OF Inr] show ?thesis by simp
    qed
  next
    case False
    obtain v xs' where r: "find_one_and_update xs i fld = (v, xs')"
      by (cases "find_one_and_update xs i fld") auto
    with False Cons.prems(1) have "c' = x # xs'" by simp
    with Cons.IH [OF r] Cons.prems(2) show ?thesis by simp
  qed
qed

lemma has_counts_insert_one:
  "insert_one c new_id d = (u, c') \<Longrightarrow> has_counts d \<Longrightarrow> \<forall>d\<in>set c. has_counts d \<Longrightarrow>
   \<forall>d\<in>set c'. has_counts d"
  by (auto simp: insert_one_def has_counts_def split: if_splits)

lemma has_counts_seed_loop:
  "seed_loop gen k ps c = (u, c') \<Longrightarrow> \<forall>d\<in>set c. has_counts d \<Longrightarrow> \<forall>d\<in>set c'. has_counts d"
proof (induction ps arbitrary: k c)
  case Nil
  then show ?case by simp
next
  case (Cons p ps)
  obtain a b where p: "p = (a, b)" by (cases p)
  obtain v c1 where ins: "insert_one c (gen k) (seed_doc a b) = (v, c1)"
    by (cases "insert_one c (gen k) (seed_doc a b)") auto
  have "has_counts (seed_doc a b)" by (simp add: has_counts_def seed_doc_def)
  from has_counts_insert_one [OF ins this Cons.prems(2)] have c1: "\<forall>d\<in>set c1. has_counts d" .
  show ?case
  proof (cases v)
    case (Inl e)
    with Cons.prems(1) p ins have "c' = c1" by simp
    with c1 show ?thesis by simp
  next
    case (Inr w)
    with Cons.prems(1) p ins have "seed_loop gen (Suc k) ps c1 = (u, c')" by simp
    from Cons.IH [OF this c1] show ?thesis .
  qed
qed

lemma has_counts_handle:
  assumes "\<forall>d\<in>set c. has_counts d"
  shows "\<exists>c'. handle (Some c) q = Some c' \<and> (\<forall>d\<in>set c'. has_counts d)"
proof (cases q)
  case (GetRandomPrompt gen pick)
  obtain u c1 where sl: "seed_loop gen 0 STARTER_PROMPTS c = (u, c1)"
    by (cases "seed_loop gen 0 STARTER_PROMPTS c") auto
  from has_counts_seed_loop [OF sl assms] have c1: "\<forall>d\<in>set c1. has_counts d" .
  have "snd (get_random_prompt (Some c) gen pick) = Some c \<or>
        snd (get_random_prompt (Some c) gen pick) = Some c1"
    using sl by (auto simp: get_random_prompt_def ensure_seeded_def split: sum.splits list.splits)
  with assms c1 GetRandomPrompt show ?thesis by auto
next
  case (CreatePrompt new_id body)
  define d where "d = (model_dump body)\<lparr>doc.a_count := Val 0, doc.b_count := Val 0\<rparr>"
  obtain u c' where ins: "insert_one c new_id d = (u, c')"
    by (cases "insert_one c new_id d") auto
  then have "snd (create_prompt (Some c) new_id body) = Some c'"
    by (simp add: create_prompt_def d_def Let_def split: sum.splits)
  moreover have "has_counts d" by (simp add: d_def has_counts_def)
  from has_counts_insert_one [OF ins this assms] have "\<forall>d\<in>set c'. has_counts d" .
  ultimately show ?thesis using CreatePrompt by simp
next
  case (Vote body)
  show ?thesis
  proof (cases "ObjectId (prompt_id body)")
    case None
    with assms Vote show ?thesis by (simp add: vote_def)
  next
    case (Some i)
    define fld where "fld = (if option body = ''a'' then ''a_count'' else ''b_count'')"
    obtain u c' where fou: "find_one_and_update c i fld = (u, c')"
      by (cases "find_one_and_update c i fld") auto
    with Some have "snd (vote (Some c) body) = Some c'"
      by (simp add: vote_def fld_def split: sum.splits option.splits)
    with has_counts_find_one_and_update [OF fou assms] Vote
    show ?thesis by simp
  qed
next
  case (TopPrompts limit)
  with assms show ?thesis by (simp add: top_prompts_def)
qed

lemma has_counts_serve:
  "\<forall>d\<in>set c. has_counts d \<Longrightarrow> \<exists>c'. serve (Some c) qs = Some c' \<and> (\<forall>d\<in>set c'. has_counts d)"
proof (induction qs arbitrary: c)
  case Nil
  then show ?case by simp
next
  case (Cons q qs)
  from has_counts_handle [OF Cons.prems, of q] obtain c1 where
    "handle (Some c) q = Some c1" "\<forall>d\<in>set c1. has_counts d" by blast
  with Cons.IH [of c1] show ?case by simp
qed

lemma has_counts_from_empty: "serve (Some []) qs = Some c \<Longrightarrow> \<forall>d\<in>set c. has_counts d"
  using has_counts_serve [of "[]" qs] by simp

text \<open>
  Claim C5, amended. On a collection whose documents have both counts, the records that
  \<open>top_prompts\<close> returns are at most \<open>limit\<close> when \<open>limit\<close> is positive (the limit is 10 when the
  request names none), and for every limit each record has an \<open>a_count\<close> not below the next
  one's and, where the two are equal, a \<open>b_count\<close> not below the next one's.
\<close>

theorem top_prompts_ordered:
  assumes "\<forall>d\<in>set c. has_counts d"
    and "fst (top_prompts (Some c) limit) = Inr rs"
  shows "top_prompts_default (Some c) = top_prompts (Some c) 10 \<and>
         (0 < limit \<longrightarrow> int (length rs) \<le> limit) \<and>
         (\<forall>i. Suc i < length rs \<longrightarrow>
            PromptResponse.a_count (rs ! Suc i) \<le> PromptResponse.a_count (rs ! i) \<and>
            (PromptResponse.a_count (rs ! i) = PromptResponse.a_count (rs ! Suc i) \<longrightarrow>
             PromptResponse.b_count (rs ! Suc i) \<le> PromptResponse.b_count (rs ! i)))"
proof -
  define ds where "ds = limit_cursor limit (sort_desc c)"
  from assms(2) have "serialize_all ds = Inr rs"
    by (simp add: top_prompts_def ds_def)
  then have l2: "list_all2 (\<lambda>d r. serialize d = Inr r) ds rs"
    by (rule serialize_all_Inr)
  then have len: "length ds = length rs"
    by (rule list_all2_lengthD)
  have srt: "sorted_wrt doc_ge ds"
    unfolding ds_def by (intro sorted_limit_cursor sorted_sort_desc)
  have sub: "set ds \<subseteq> set c"
    unfolding ds_def using set_limit_cursor [of limit "sort_desc c"] by (simp add: set_sort_desc)
  have bound: "int (length rs) \<le> limit" if "0 < limit"
    using length_limit_cursor [OF that, of "sort_desc c"] len by (simp add: ds_def)
  have ord: "PromptResponse.a_count (rs ! Suc i) \<le> PromptResponse.a_count (rs ! i) \<and>
            (PromptResponse.a_count (rs ! i) = PromptResponse.a_count (rs ! Suc i) \<longrightarrow>
             PromptResponse.b_count (rs ! Suc i) \<le> PromptResponse.b_count (rs ! i))"
    if i: "Suc i < length rs" for i
  proof -
    from i len have i': "i < length ds" "Suc i < length ds" by simp_all
    from srt i' have ge: "doc_ge (ds ! i) (ds ! Suc i)"
      by (simp add: sorted_wrt_nth_less)
    from i' have s1: "serialize (ds ! i) = Inr (rs ! i)" and s2: "serialize (ds ! Suc i) = Inr (rs ! Suc i)"
      using list_all2_nthD [OF l2, of i] list_all2_nthD [OF l2, of "Suc i"] by simp_all
    from i' have "ds ! i \<in> set ds" "ds ! Suc i \<in> set ds"
      by (simp_all only: nth_mem)
    with sub assms(1) have h: "has_counts (ds ! i)" "has_counts (ds ! Suc i)"
      by blast+
    from doc_ge_serialized [OF ge s1 s2 h] show ?thesis by auto
  qed
  have dflt: "top_prompts_default (Some c) = top_prompts (Some c) 10"
    by (simp add: top_prompts_default_def)
  from dflt bound ord show ?thesis by blast
qed

theorem top_prompts_ordered_witness:
  "fst (top_prompts (Some example_store) 2) =
     Inr [example_response ''000000000000000000000002'' 4 1,
          example_response ''000000000000000000000003'' 3 7] \<and>
   int (length [example_response ''000000000000000000000002'' 4 1,
                example_response ''000000000000000000000003'' 3 7]) \<le> 2 \<and>
   PromptResponse.a_count (example_response ''000000000000000000000003'' 3 7) \<le>
     PromptResponse.a_count (example_response ''000000000000000000000002'' 4 1)"
proof -
  let ?rs = "[example_response ''000000000000000000000002'' 4 1,
              example_response ''000000000000000000000003'' 3 7]"
  from top_prompts_ordered [OF has_counts_example top_prompts_example_2]
  have b: "0 < (2::int) \<longrightarrow> int (length ?rs) \<le> 2"
    and o: "\<forall>i. Suc i < length ?rs \<longrightarrow>
            PromptResponse.a_count (?rs ! Suc i) \<le> PromptResponse.a_count (?rs ! i) \<and>
            (PromptResponse.a_count (?rs ! i) = PromptResponse.a_count (?rs ! Suc i) \<longrightarrow>
             PromptResponse.b_count (?rs ! Suc i) \<le> PromptResponse.b_count (?rs ! i))"
    by blast+
  from o have "Suc 0 < length ?rs \<longrightarrow> PromptResponse.a_count (?rs ! Suc 0) \<le> PromptResponse.a_count (?rs ! 0)"
    by blast
  with b top_prompts_example_2 show ?thesis by simp
qed

text \<open>
  As C5 is written it covers every limit; with the limit 0 the three stored records are returned.
\<close>

theorem top_prompts_no_limit_counterexample:
  "fst (top_prompts (Some example_store) 0) =
     Inr [example_response ''000000000000000000000002'' 4 1,
          example_response ''000000000000000000000003'' 3 7,
          example_response ''000000000000000000000004'' 3 5] \<and>
   \<not> int (length [example_response ''000000000000000000000002'' 4 1,
                  example_response ''000000000000000000000003'' 3 7,
                  example_response ''000000000000000000000004'' 3 5]) \<le> 0"
  by (simp add: top_prompts_example_0)

text \<open>
  Claim C9. With the limit 0 the records that \<open>top_prompts\<close> returns are as many as the
  stored documents and every stored document is among them, so on a collection that is not empty
  they are more than the limit; and it returns them whenever every stored document serializes.
\<close>

theorem top_prompts_limit_zero:
  "(\<forall>rs. fst (top_prompts (Some c) 0) = Inr rs \<longrightarrow>
      length rs = length c \<and> (\<forall>d\<in>set c. \<exists>r\<in>set rs. serialize d = Inr r) \<and>
      (c \<noteq> [] \<longrightarrow> 0 < int (length rs))) \<and>
   ((\<forall>d\<in>set c. \<exists>r. serialize d = Inr r) \<longrightarrow> (\<exists>rs. fst (top_prompts (Some c) 0) = Inr rs))"
proof (rule conjI; intro allI impI)
  fix rs
  assume "fst (top_prompts (Some c) 0) = Inr rs"
  then have "serialize_all (sort_desc c) = Inr rs"
    by (simp add: top_prompts_def limit_cursor_def)
  then have l2: "list_all2 (\<lambda>d r. serialize d = Inr r) (sort_desc c) rs"
    by (rule serialize_all_Inr)
  then have len: "length rs = length c"
    by (auto dest: list_all2_lengthD simp: length_sort_desc)
  have "\<exists>r\<in>set rs. serialize d = Inr r" if "d \<in> set c" for d
  proof -
    from that have "d \<in> set (sort_desc c)" by (simp add: set_sort_desc)
    then obtain i where "i < length (sort_desc c)" "sort_desc c ! i = d"
      by (auto simp: in_set_conv_nth)
    with l2 have "serialize d = Inr (rs ! i)" "i < length rs"
      by (auto dest: list_all2_nthD list_all2_lengthD)
    then show ?thesis by (auto intro: nth_mem)
  qed
  with len show "length rs = length c \<and> (\<forall>d\<in>set c. \<exists>r\<in>set rs. serialize d = Inr r) \<and>
      (c \<noteq> [] \<longrightarrow> 0 < int (length rs))"
    by simp
next
  assume "\<forall>d\<in>set c. \<exists>r. serialize d = Inr r"
  then have "\<forall>d\<in>set (sort_desc c). \<exists>r. serialize d = Inr r"
    by (simp add: set_sort_desc)
  then have "\<exists>rs. serialize_all (sort_desc c) = Inr rs"
    by (rule serialize_all_total)
  then show "\<exists>rs. fst (top_prompts (Some c) 0) = Inr rs"
    by (simp add: top_prompts_def limit_cursor_def)
qed


theorem top_prompts_limit_zero_witness:
  "fst (top_prompts (Some example_store) 0) =
     Inr [example_response ''000000000000000000000002'' 4 1,
          example_response ''000000000000000000000003'' 3 7,
          example_response ''000000000000000000000004'' 3 5] \<and>
   length [example_response ''000000000000000000000002'' 4 1,
           example_response ''000000000000000000000003'' 3 7,
           example_response ''000000000000000000000004'' 3 5] = length example_store \<and>
   example_store \<noteq> [] \<and>
   0 < int (length [example_response ''000000000000000000000002'' 4 1,
                    example_response ''000000000000000000000003'' 3 7,
                    example_response ''000000000000000000000004'' 3 5]) \<and>
   (\<exists>rs. fst (top_prompts (Some example_store) 0) = Inr rs)"
proof -
  let ?rs = "[example_response ''000000000000000000000002'' 4 1,
           example_response ''000000000000000000000003'' 3 7,
           example_response ''000000000000000000000004'' 3 5]"
  have ne: "example_store \<noteq> []" by (simp add: example_store_def)
  have ser: "\<forall>d\<in>set example_store. \<exists>r. serialize d = Inr r"
    by (simp add: example_store_def serialize_example_doc)
  from top_prompts_limit_zero [of example_store]
  have "fst (top_prompts (Some example_store) 0) = Inr ?rs \<longrightarrow>
      length ?rs = length example_store \<and> (example_store \<noteq> [] \<longrightarrow> 0 < int (length ?rs))"
    and "(\<forall>d\<in>set example_store. \<exists>r. serialize d = Inr r) \<longrightarrow>
      (\<exists>rs. fst (top_prompts (Some example_store) 0) = Inr rs)"
    by blast+
  with top_prompts_example_0 ne ser show ?thesis by blast
qed

subsection \<open>What a vote changes\<close>

lemma inc_field_Inr:
  "inc_field fld d = Inr d' \<Longrightarrow>
   (if fld = ''a_count''
    then \<exists>n. get_default (doc.a_count d) 0 = Some n \<and> d' = d\<lparr>doc.a_count := Val (n + 1)\<rparr>
    else \<exists>n. get_default (doc.b_count d) 0 = Some n \<and> d' = d\<lparr>doc.b_count := Val (n + 1)\<rparr>)"
  by (auto simp: inc_field_def inc_def get_default_def split: if_splits field.splits sum.splits)

text \<open>
  Claim C7. An accepted vote replaces one stored document, the one with the identifier voted
  on, by the same document with one count raised by 1: \<open>a_count\<close> for option "a", \<open>b_count\<close>
  otherwise. Its identifier, its two options, its category, its creator and its other count are
  unchanged, and so is every other document of the collection.
\<close>

theorem vote_frame:
  assumes "vote (Some c) body = (Inr r, db')"
  shows "\<exists>k<length c. \<exists>n d'.
           ObjectId (prompt_id body) = Some (doc.oid (c ! k)) \<and>
           db' = Some (c[k := d']) \<and>
           (if option body = ''a''
            then get_default (doc.a_count (c ! k)) 0 = Some n \<and> d' = (c ! k)\<lparr>doc.a_count := Val (n + 1)\<rparr> \<and>
                 doc.b_count d' = doc.b_count (c ! k)
            else get_default (doc.b_count (c ! k)) 0 = Some n \<and> d' = (c ! k)\<lparr>doc.b_count := Val (n + 1)\<rparr> \<and>
                 doc.a_count d' = doc.a_count (c ! k)) \<and>
           doc.oid d' = doc.oid (c ! k) \<and> doc.option_a d' = doc.option_a (c ! k) \<and>
           doc.option_b d' = doc.option_b (c ! k) \<and> doc.category d' = doc.category (c ! k) \<and>
           doc.created_by d' = doc.created_by (c ! k) \<and>
           (\<forall>j<length c. j \<noteq> k \<longrightarrow> (c[k := d']) ! j = c ! j) \<and>
           length (c[k := d']) = length c"
proof -
  define fld where "fld = (if option body = ''a'' then ''a_count'' else ''b_count'')"
  from assms obtain i where i: "ObjectId (prompt_id body) = Some i"
    by (cases "ObjectId (prompt_id body)") (auto simp: vote_def)
  obtain u c' where fou: "find_one_and_update c i fld = (u, c')"
    by (cases "find_one_and_update c i fld") auto
  with assms i obtain d' where d': "u = Inr (Some d')" and db': "db' = Some c'"
    by (auto simp: vote_def fld_def split: sum.splits option.splits if_splits)
  from find_one_and_update_updated [OF fou [unfolded d']] obtain k where
    k: "k < length c" "doc.oid (c ! k) = i" "inc_field fld (c ! k) = Inr d'" "c' = c[k := d']"
    by blast
  from inc_field_Inr [OF k(3)] obtain n where
    n: "if option body = ''a''
        then get_default (doc.a_count (c ! k)) 0 = Some n \<and> d' = (c ! k)\<lparr>doc.a_count := Val (n + 1)\<rparr>
        else get_default (doc.b_count (c ! k)) 0 = Some n \<and> d' = (c ! k)\<lparr>doc.b_count := Val (n + 1)\<rparr>"
    by (auto simp: fld_def split: if_splits)
  have "ObjectId (prompt_id body) = Some (doc.oid (c ! k)) \<and>
           db' = Some (c[k := d']) \<and>
           (if option body = ''a''
            then get_default (doc.a_count (c ! k)) 0 = Some n \<and> d' = (c ! k)\<lparr>doc.a_count := Val (n + 1)\<rparr> \<and>
                 doc.b_count d' = doc.b_count (c ! k)
            else get_default (doc.b_count (c ! k)) 0 = Some n \<and> d' = (c ! k)\<lparr>doc.b_count := Val (n + 1)\<rparr> \<and>
                 doc.a_count d' = doc.a_count (c ! k)) \<and>
           doc.oid d' = doc.oid (c ! k) \<and> doc.option_a d' = doc.option_a (c ! k) \<and>
           doc.option_b d' = doc.option_b (c ! k) \<and> doc.category d' = doc.category (c ! k) \<and>
           doc.created_by d' = doc.created_by (c ! k) \<and>
           (\<forall>j<length c. j \<noteq> k \<longrightarrow> (c[k := d']) ! j = c ! j) \<and>
           length (c[k := d']) = length c"
    using i k db' n by (auto split: if_splits)
  with k(1) show ?thesis by blast
qed


theorem vote_frame_witness:
  "vote (Some example_store) \<lparr>prompt_id = ''000000000000000000000002'', option = ''b''\<rparr> =
     (Inr (example_response ''000000000000000000000002'' 4 2),
      Some [example_doc 4 3 5, example_doc 2 4 2, example_doc 3 3 7]) \<and>
   [example_doc 4 3 5, example_doc 2 4 2, example_doc 3 3 7] =
     example_store[1 := (example_store ! 1)\<lparr>doc.b_count := Val (1 + 1)\<rparr>]"
proof -
  let ?b = "\<lparr>prompt_id = ''000000000000000000000002'', option = ''b''\<rparr>"
  have g: "example_gen 4 \<noteq> example_gen 2" "example_gen 3 \<noteq> example_gen 2"
    by (simp_all add: example_gen_def)
  have "inc_field ''b_count'' (example_doc 2 4 1) = Inr (example_doc 2 4 (1 + 1))"
    by (rule inc_b_example_doc) simp
  then have i: "inc_field ''b_count'' (example_doc 2 4 1) = Inr (example_doc 2 4 2)"
    by simp
  have f: "find_one_and_update example_store (example_gen 2) ''b_count'' =
      (Inr (Some (example_doc 2 4 2)), [example_doc 4 3 5, example_doc 2 4 2, example_doc 3 3 7])"
    by (simp add: example_store_def oid_example_doc g i)
  have s: "serialize (example_doc 2 4 2) = Inr (example_response ''000000000000000000000002'' 4 2)"
    by (simp only: serialize_example_doc str_oid_example_2)
  have v: "vote (Some example_store) ?b =
     (Inr (example_response ''000000000000000000000002'' 4 2),
      Some [example_doc 4 3 5, example_doc 2 4 2, example_doc 3 3 7])"
    by (simp add: vote_def ObjectId_example_2 f s)
  from vote_frame [OF v] obtain k n d' where
    k: "k < length example_store"
       "ObjectId (prompt_id ?b) = Some (doc.oid (example_store ! k))"
       "Some [example_doc 4 3 5, example_doc 2 4 2, example_doc 3 3 7] = Some (example_store[k := d'])"
       "get_default (doc.b_count (example_store ! k)) 0 = Some n"
       "d' = (example_store ! k)\<lparr>doc.b_count := Val (n + 1)\<rparr>"
    by auto
  from k(2) have "doc.oid (example_store ! k) = example_gen 2"
    by (simp add: ObjectId_example_2)
  with k(1) g have "k = 1"
    by (auto simp: example_store_def oid_example_doc less_Suc_eq numeral_3_eq_3)
  with k(4) have "n = 1"
    by (simp add: example_store_def example_doc_def get_default_def)
  with k(3,5) \<open>k = 1\<close> v show ?thesis by simp
qed

subsection \<open>From creation to ranking\<close>

lemma same_text_refl: "same_text d d"
  by (simp add: same_text_def)

lemma inc_field_same_text: "inc_field fld d = Inr d' \<Longrightarrow> same_text d' d"
  by (auto simp: inc_field_def same_text_def split: if_splits sum.splits)

lemma find_one_and_update_same_text:
  "find_one_and_update c i fld = (u, c') \<Longrightarrow> list_all2 same_text c' c"
proof (induction c arbitrary: u c')
  case Nil
  then show ?case by simp
next
  case (Cons x xs)
  show ?case
  proof (cases "doc.oid x = i")
    case True
    have refl: "list_all2 same_text xs xs"
      by (simp add: list_all2_same same_text_refl)
    show ?thesis
    proof (cases "inc_field fld x")
      case (Inl e)
      with True Cons.prems have "c' = x # xs" by simp
      with refl show ?thesis by (simp add: same_text_refl)
    next
      case (Inr x')
      with True Cons.prems have "c' = x' # xs" by simp
      with refl inc_field_same_text [OF Inr] show ?thesis by simp
    qed
  next
    case False
    obtain v xs' where r: "find_one_and_update xs i fld = (v, xs')"
      by (cases "find_one_and_update xs i fld") auto
    with False Cons.prems have "c' = x # xs'" by simp
    with Cons.IH [OF r] show ?thesis by (simp add: same_text_refl)
  qed
qed

lemma holds_same_text:
  assumes "holds e c" and "list_all2 same_text c' c"
  shows "holds e c'"
proof -
  from assms(2) have len: "length c' = length c" by (rule list_all2_lengthD)
  have nth: "same_text (c' ! k) (c ! k)" if "k < length c" for k
    using list_all2_nthD [OF assms(2), of k] that len by simp
  from assms(1) obtain k where k: "k < length c" "doc.oid (c ! k) = doc.oid e"
    by (auto simp: holds_def in_set_conv_nth)
  with nth [of k] len have "c' ! k \<in> set c'" "doc.oid (c' ! k) = doc.oid e"
    by (simp_all add: same_text_def)
  then have "doc.oid e \<in> doc.oid ` set c'"
    by (metis imageI)
  then have mem: "doc.oid e \<in> set (map doc.oid c')"
    by simp
  have "same_text d e" if d: "d \<in> set c'" "doc.oid d = doc.oid e" for d
  proof -
    from d(1) obtain j where j: "j < length c'" "c' ! j = d"
      by (auto simp: in_set_conv_nth)
    with nth [of j] len have st: "same_text d (c ! j)" by simp
    with d(2) have "doc.oid (c ! j) = doc.oid e" by (simp add: same_text_def)
    moreover from j len have "c ! j \<in> set c" by simp
    ultimately have "same_text (c ! j) e" using assms(1) by (simp add: holds_def)
    with st show ?thesis by (simp add: same_text_def)
  qed
  with mem show ?thesis by (simp add: holds_def)
qed

lemma holds_insert_one:
  assumes "holds e c" and "insert_one c new_id d = (u, c')"
  shows "holds e c'"
proof (cases "new_id \<in> set (map doc.oid c)")
  case True
  with assms show ?thesis by (simp add: insert_one_def)
next
  case False
  with assms(2) have c': "c' = c @ [d\<lparr>doc.oid := new_id\<rparr>]"
    by (simp add: insert_one_def)
  from assms(1) False have "new_id \<noteq> doc.oid e"
    by (auto simp: holds_def)
  with assms(1) c' show ?thesis
    by (auto simp: holds_def)
qed

lemma holds_handle:
  assumes "holds e c"
  shows "\<exists>c'. handle (Some c) q = Some c' \<and> holds e c'"
proof (cases q)
  case (GetRandomPrompt gen pick)
  from assms have "c \<noteq> []" by (auto simp: holds_def)
  then have "ensure_seeded (Some c) gen = (Inr (), Some c)"
    by (simp add: ensure_seeded_def count_documents_def)
  then have "snd (get_random_prompt (Some c) gen pick) = Some c"
    by (simp add: get_random_prompt_def split: list.splits)
  with assms GetRandomPrompt show ?thesis by simp
next
  case (CreatePrompt new_id body)
  define d where "d = (model_dump body)\<lparr>doc.a_count := Val 0, doc.b_count := Val 0\<rparr>"
  obtain u c' where ins: "insert_one c new_id d = (u, c')"
    by (cases "insert_one c new_id d") auto
  then have "snd (create_prompt (Some c) new_id body) = Some c'"
    by (simp add: create_prompt_def d_def Let_def split: sum.splits)
  with holds_insert_one [OF assms ins] CreatePrompt show ?thesis by simp
next
  case (Vote body)
  show ?thesis
  proof (cases "ObjectId (prompt_id body)")
    case None
    with assms Vote show ?thesis by (simp add: vote_def)
  next
    case (Some i)
    define fld where "fld = (if option body = ''a'' then ''a_count'' else ''b_count'')"
    obtain u c' where fou: "find_one_and_update c i fld = (u, c')"
      by (cases "find_one_and_update c i fld") auto
    with Some have "snd (vote (Some c) body) = Some c'"
      by (simp add: vote_def fld_def split: sum.splits option.splits)
    with holds_same_text [OF assms find_one_and_update_same_text [OF fou]] Vote
    show ?thesis by simp
  qed
next
  case (TopPrompts limit)
  with assms show ?thesis by (simp add: top_prompts_def)
qed

lemma holds_serve: "holds e c \<Longrightarrow> \<exists>c'. serve (Some c) qs = Some c' \<and> holds e c'"
proof (induction qs arbitrary: c)
  case Nil
  then show ?case by simp
next
  case (Cons q qs)
  from holds_handle [OF Cons.prems, of q] obtain c1 where
    "handle (Some c) q = Some c1" "holds e c1" by blast
  with Cons.IH [of c1] show ?case by simp
qed

lemma same_text_serialize:
  assumes "same_text d e" "serialize d = Inr r" "serialize e = Inr s"
  shows "id_str r = id_str s \<and> PromptResponse.option_a r = PromptResponse.option_a s \<and>
         PromptResponse.option_b r = PromptResponse.option_b s \<and>
         PromptResponse.category r = PromptResponse.category s \<and>
         PromptResponse.created_by r = PromptResponse.created_by s"
  using assms
  by (auto simp: same_text_def serialize_def split: sum.splits option.splits)

lemma serialize_id_str: "serialize d = Inr r \<Longrightarrow> id_str r = str_oid (doc.oid d)"
  by (auto simp: serialize_def split: sum.splits option.splits)

text \<open>
  Claim C8. A record returned by \<open>top_prompts\<close>, after any sequence of requests that follows
  the creation, under the identifier of a creation response carries the \<open>option_a\<close>, \<open>option_b\<close>,
  \<open>category\<close> and \<open>created_by\<close> of that response.
\<close>

theorem create_then_top_roundtrip:
  assumes "create_prompt (Some c) new_id body = (Inr r, db1)"
    and "fst (top_prompts (serve db1 qs) limit) = Inr rs"
    and "r' \<in> set rs" and "id_str r' = id_str r"
  shows "PromptResponse.option_a r' = PromptResponse.option_a r \<and>
         PromptResponse.option_b r' = PromptResponse.option_b r \<and>
         PromptResponse.category r' = PromptResponse.category r \<and>
         PromptResponse.created_by r' = PromptResponse.created_by r"
proof -
  define e where "e = (model_dump body)\<lparr>doc.a_count := Val 0, doc.b_count := Val 0, doc.oid := new_id\<rparr>"
  have fresh: "new_id \<notin> set (map doc.oid c)"
  proof
    assume "new_id \<in> set (map doc.oid c)"
    then have "create_prompt (Some c) new_id body = (Inl DuplicateKeyError, Some c)"
      by (simp add: create_prompt_def insert_one_def Let_def)
    with assms(1) show False by simp
  qed
  with assms(1) have ser: "serialize e = Inr r" and db1: "db1 = Some (c @ [e])"
    by (simp_all add: create_prompt_def insert_one_def Let_def e_def)
  have oid_e: "doc.oid e = new_id" by (simp add: e_def)
  from fresh have "holds e (c @ [e])"
    by (auto simp: holds_def oid_e same_text_refl)
  from holds_serve [OF this, of qs] db1 obtain c2 where
    c2: "serve db1 qs = Some c2" "holds e c2" by auto
  define ds where "ds = limit_cursor limit (sort_desc c2)"
  from assms(2) c2(1) have "serialize_all ds = Inr rs"
    by (simp add: top_prompts_def ds_def)
  then have l2: "list_all2 (\<lambda>d r. serialize d = Inr r) ds rs"
    by (rule serialize_all_Inr)
  from assms(3) obtain k where k: "k < length rs" "rs ! k = r'"
    by (auto simp: in_set_conv_nth)
  from l2 have len: "length ds = length rs" by (rule list_all2_lengthD)
  with k list_all2_nthD [OF l2, of k] have sd: "serialize (ds ! k) = Inr r'"
    by simp
  from k len have "ds ! k \<in> set ds" by simp
  with set_limit_cursor [of limit "sort_desc c2"] have mem: "ds ! k \<in> set c2"
    by (auto simp: ds_def set_sort_desc)
  from serialize_id_str [OF sd] serialize_id_str [OF ser] assms(4)
  have "str_oid (doc.oid (ds ! k)) = str_oid (doc.oid e)" by simp
  then have "doc.oid (ds ! k) = doc.oid e" by (rule str_oid_inj)
  with mem c2(2) have "same_text (ds ! k) e" by (simp add: holds_def)
  from same_text_serialize [OF this sd ser] show ?thesis by simp
qed


theorem create_then_top_roundtrip_witness:
  "create_prompt (Some example_store) (example_gen 5) example_body =
     (Inr (example_created_response 0), Some (example_store @ [example_created])) \<and>
   fst (top_prompts
         (serve (Some (example_store @ [example_created]))
            [Vote \<lparr>prompt_id = ''000000000000000000000005'', option = ''a''\<rparr>]) 10) =
     Inr [example_response ''000000000000000000000002'' 4 1,
          example_response ''000000000000000000000003'' 3 7,
          example_response ''000000000000000000000004'' 3 5,
          example_created_response 1] \<and>
   PromptResponse.option_a (example_created_response 1) = PromptResponse.option_a (example_created_response 0) \<and>
   PromptResponse.option_b (example_created_response 1) = PromptResponse.option_b (example_created_response 0) \<and>
   PromptResponse.category (example_created_response 1) = PromptResponse.category (example_created_response 0) \<and>
   PromptResponse.created_by (example_created_response 1) = PromptResponse.created_by (example_created_response 0)"
proof -
  let ?rs = "[example_response ''000000000000000000000002'' 4 1,
          example_response ''000000000000000000000003'' 3 7,
          example_response ''000000000000000000000004'' 3 5,
          example_created_response 1]"
  have t: "fst (top_prompts
         (serve (Some (example_store @ [example_created]))
            [Vote \<lparr>prompt_id = ''000000000000000000000005'', option = ''a''\<rparr>]) 10) = Inr ?rs"
    by (simp only: serve_example top_prompts_example_created)
  have m: "example_created_response 1 \<in> set ?rs" by simp
  have i: "id_str (example_created_response 1) = id_str (example_created_response 0)"
    by (simp add: example_created_response_def)
  from create_then_top_roundtrip [OF create_prompt_example t m i] create_prompt_example t
  show ?thesis by blast
qed

end
